theory Spec2Isabelle
  imports Complex_Main "HOL-Library.Word"
begin

section \<open>Python values\<close>

text \<open>
  The exceptions of \<^verbatim>\<open>app.py\<close> that can leave \<^verbatim>\<open>process_data\<close>:
  a missing dictionary key, a read past the end of the bit stream, and an ordering
  comparison between an integer and a string.
\<close>

datatype error = KeyError | ReadError | TypeError

definition then_do :: "error + 'a \<Rightarrow> ('a \<Rightarrow> error + 'b) \<Rightarrow> error + 'b" where
  "then_do m f = (case m of Inl e \<Rightarrow> Inl e | Inr x \<Rightarrow> f x)"

text \<open>
  Payload values handed to \<^verbatim>\<open>cbor2.dumps\<close>: integers, the float literal
  \<^verbatim>\<open>2.5\<close>, strings, lists and dictionaries. A dictionary keeps its insertion order, so
  it is an association list; its keys are strings or (after compaction) integers.
\<close>

datatype pykey = KInt int | KStr string

datatype pyval =
    VInt int
  | VFloat rat
  | VStr string
  | VList "pyval list"
  | VDict "(pykey \<times> pyval) list"

text \<open>
  The fields of the inbound envelope (\<^verbatim>\<open>msg_obj\<close>, a JSON object): the model covers
  envelopes whose fields are JSON integers or JSON strings.
\<close>

datatype jval = JInt int | JStr string

type_synonym envelope = "(string \<times> jval) list"

text \<open>\<^verbatim>\<open>d[k]\<close>: the value, or KeyError.\<close>

definition dict_get :: "('k \<times> 'v) list \<Rightarrow> 'k \<Rightarrow> error + 'v" where
  "dict_get d k = (case map_of d k of None \<Rightarrow> Inl KeyError | Some v \<Rightarrow> Inr v)"

text \<open>\<^verbatim>\<open>d[k] = v\<close>: an existing key keeps its position, a new key goes last.\<close>

fun dict_set :: "('k \<times> 'v) list \<Rightarrow> 'k \<Rightarrow> 'v \<Rightarrow> ('k \<times> 'v) list" where
  "dict_set [] k v = [(k, v)]"
| "dict_set ((k', v') # d) k v = (if k' = k then (k, v) # d else (k', v') # dict_set d k v)"

text \<open>\<^verbatim>\<open>{v: k for k, v in d.items()}\<close>\<close>

definition invert_dict :: "('k \<times> 'v) list \<Rightarrow> ('v \<times> 'k) list" where
  "invert_dict d = foldl (\<lambda>out (k, v). dict_set out v k) [] d"

text \<open>\<^verbatim>\<open>port == n\<close> for an integer literal \<open>n\<close>: a string never equals it.\<close>

fun py_eq_int :: "jval \<Rightarrow> int \<Rightarrow> bool" where
  "py_eq_int (JInt i) n = (i = n)"
| "py_eq_int (JStr s) n = False"

text \<open>Python orders strings by code point, position by position.\<close>

fun str_gt :: "string \<Rightarrow> string \<Rightarrow> bool" where
  "str_gt [] ys = False"
| "str_gt (x # xs) [] = True"
| "str_gt (x # xs) (y # ys) =
     (if x = y then str_gt xs ys else (of_char y :: nat) < of_char x)"

text \<open>\<^verbatim>\<open>a > b\<close>: integers by value, strings by code point, TypeError when mixed.\<close>

fun py_gt :: "jval \<Rightarrow> jval \<Rightarrow> error + bool" where
  "py_gt (JInt a) (JInt b) = Inr (b < a)"
| "py_gt (JStr a) (JStr b) = Inr (str_gt a b)"
| "py_gt (JInt a) (JStr b) = Inl TypeError"
| "py_gt (JStr a) (JInt b) = Inl TypeError"

text \<open>\<^verbatim>\<open>str(n)\<close> of an integer, as \<^verbatim>\<open>format\<close> renders it: decimal digits, a minus sign
  when negative.\<close>

definition digit_char :: "nat \<Rightarrow> char" where
  "digit_char d = char_of (of_char CHR ''0'' + d)"

function dec_digits :: "nat \<Rightarrow> string" where
  "dec_digits n = (if n < 10 then [digit_char n] else dec_digits (n div 10) @ [digit_char (n mod 10)])"
  by pat_completeness auto
termination
  by (relation "measure id") auto

declare dec_digits.simps [simp del]

definition str_int :: "int \<Rightarrow> string" where
  "str_int i = (if i < 0 then CHR ''-'' # dec_digits (nat (- i)) else dec_digits (nat i))"

fun py_str :: "jval \<Rightarrow> string" where
  "py_str (JStr s) = s"
| "py_str (JInt i) = str_int i"

section \<open>Bit stream\<close>

text \<open>
  \<^verbatim>\<open>bitstring.ConstBitStream(bytes=payload)\<close>: the bits of the payload, most
  significant bit of each byte first, and a read position. A read past the end raises
  ReadError and leaves the position where it was.
\<close>

type_synonym byte = "8 word"

record bitstream =
  bits :: "bool list"
  bitpos :: nat

definition byte_bits :: "byte \<Rightarrow> bool list" where
  "byte_bits b = map (bit b) [7, 6, 5, 4, 3, 2, 1, 0]"

definition ConstBitStream :: "byte list \<Rightarrow> bitstream" where
  "ConstBitStream payload = \<lparr>bits = concat (map byte_bits payload), bitpos = 0\<rparr>"

text \<open>\<^verbatim>\<open>len(stream) - stream.bitpos\<close>\<close>

definition remaining :: "bitstream \<Rightarrow> nat" where
  "remaining stream = length (bits stream) - bitpos stream"

text \<open>The \<^verbatim>\<open>.uint\<close> and \<^verbatim>\<open>.int\<close> (two's complement) readings of a run of bits.\<close>

definition bits_uint :: "bool list \<Rightarrow> int" where
  "bits_uint bs = foldl (\<lambda>acc b. 2 * acc + (if b then 1 else 0)) 0 bs"

definition bits_int :: "bool list \<Rightarrow> int" where
  "bits_int bs =
     (case bs of
        [] \<Rightarrow> 0
      | b # _ \<Rightarrow> if b then bits_uint bs - 2 ^ length bs else bits_uint bs)"

text \<open>\<^verbatim>\<open>stream.read(n)\<close>\<close>

definition read_bits :: "bitstream \<Rightarrow> nat \<Rightarrow> error + (bool list \<times> bitstream)" where
  "read_bits stream n =
     (if length (bits stream) < bitpos stream + n then Inl ReadError
      else Inr (take n (drop (bitpos stream) (bits stream)),
                stream\<lparr>bitpos := bitpos stream + n\<rparr>))"

text \<open>\<^verbatim>\<open>stream.read("uint:n")\<close>, \<^verbatim>\<open>stream.read("int:n")\<close>, \<^verbatim>\<open>stream.read("bool")\<close>\<close>

definition read_uint :: "bitstream \<Rightarrow> nat \<Rightarrow> error + (int \<times> bitstream)" where
  "read_uint stream n = then_do (read_bits stream n) (\<lambda>(bs, s). Inr (bits_uint bs, s))"

definition read_int :: "bitstream \<Rightarrow> nat \<Rightarrow> error + (int \<times> bitstream)" where
  "read_int stream n = then_do (read_bits stream n) (\<lambda>(bs, s). Inr (bits_int bs, s))"

definition read_bool :: "bitstream \<Rightarrow> error + (bool \<times> bitstream)" where
  "read_bool stream = then_do (read_bits stream 1) (\<lambda>(bs, s). Inr (bs = [True], s))"

section \<open>Channel Catalog and Config Compactor\<close>

definition CONFIG_PORT :: int where
  "CONFIG_PORT = 1"

definition DATA_PORT :: int where
  "DATA_PORT = 2"

definition CONFIG_PACKET_KEYS :: "(int \<times> string) list" where
  "CONFIG_PACKET_KEYS =
     [(1, ''channel_id''), (2, ''quantity''), (3, ''unit''), (4, ''sensor''),
      (5, ''item_type''), (6, ''measured''), (7, ''divider'')]"

definition CONFIG_PACKET_VALUES :: "(string \<times> (int \<times> string) list) list" where
  "CONFIG_PACKET_VALUES =
     [(''quantity'',
         [(1, ''temperature''), (2, ''humidity''), (3, ''voltage''), (4, ''ambient_light''),
          (5, ''particulate_matter''), (6, ''position'')]),
      (''unit'',
         [(1, ''degrees_celcius''), (2, ''percent_rh''), (3, ''volt''),
          (4, ''ug_per_cubic_meter''), (5, ''lux''), (6, ''degrees'')]),
      (''sensor'', [(1, ''Si2701'')]),
      (''item_type'', [(1, ''node''), (2, ''channel'')])]"

definition CONFIG_PACKET_KEYS_INVERTED :: "(string \<times> int) list" where
  "CONFIG_PACKET_KEYS_INVERTED = invert_dict CONFIG_PACKET_KEYS"

definition CONFIG_PACKET_VALUES_INVERTED :: "(string \<times> (string \<times> int) list) list" where
  "CONFIG_PACKET_VALUES_INVERTED =
     foldl (\<lambda>out (outer_k, outer_v). dict_set out outer_k (invert_dict outer_v)) []
       CONFIG_PACKET_VALUES"

type_synonym pydict = "(pykey \<times> pyval) list"

text \<open>
  The body of the loop of \<^verbatim>\<open>encode_cbor_obj\<close>: a string value is replaced by its code
  when the catalog has a non-empty table for the (still unreplaced) key and the table
  has the value; then a string key is replaced by its code when the catalog has one;
  then \<^verbatim>\<open>out[key] = value\<close>.
\<close>

definition encode_item ::
  "(string \<times> int) list \<Rightarrow> (string \<times> (string \<times> int) list) list \<Rightarrow> pydict \<Rightarrow> pykey \<times> pyval \<Rightarrow> pydict"
where
  "encode_item keys vals out kv =
     (let key = fst kv; val = snd kv;
          val' = (case val of
                    VStr s \<Rightarrow>
                      (case key of
                         KStr ks \<Rightarrow>
                           (case map_of vals ks of
                              None \<Rightarrow> val
                            | Some values_for_this_key \<Rightarrow>
                                if values_for_this_key = [] then val
                                else (case map_of values_for_this_key s of
                                        None \<Rightarrow> val
                                      | Some code \<Rightarrow> VInt code))
                       | KInt i \<Rightarrow> val)
                  | _ \<Rightarrow> val);
          key' = (case key of
                    KStr ks \<Rightarrow> (case map_of keys ks of None \<Rightarrow> key | Some code \<Rightarrow> KInt code)
                  | KInt i \<Rightarrow> key)
      in dict_set out key' val')"

definition encode_cbor_obj ::
  "pyval \<Rightarrow> (string \<times> int) list \<Rightarrow> (string \<times> (string \<times> int) list) list \<Rightarrow> pyval"
where
  "encode_cbor_obj obj keys vals =
     (case obj of
        VDict items \<Rightarrow> VDict (foldl (encode_item keys vals) [] items)
      | _ \<Rightarrow> obj)"

text \<open>The local \<^verbatim>\<open>encode\<close> of \<^verbatim>\<open>process_data\<close>.\<close>

definition encode :: "pyval \<Rightarrow> pyval" where
  "encode item = encode_cbor_obj item CONFIG_PACKET_KEYS_INVERTED CONFIG_PACKET_VALUES_INVERTED"

section \<open>Packet Decoder\<close>

text \<open>The descriptors that \<^verbatim>\<open>process_data\<close> builds before it looks at the packet.\<close>

definition node_config :: pydict where
  "node_config = [(KStr ''item_type'', VStr ''node'')]"

definition position_config :: pydict where
  "position_config =
     [(KStr ''item_type'', VStr ''channel''), (KStr ''channel_id'', VInt 0),
      (KStr ''quantity'', VStr ''position''), (KStr ''unit'', VStr ''degrees''),
      (KStr ''divider'', VInt 32768)]"

definition temperature_config :: pydict where
  "temperature_config =
     [(KStr ''item_type'', VStr ''channel''), (KStr ''channel_id'', VInt 1),
      (KStr ''quantity'', VStr ''temperature''), (KStr ''unit'', VStr ''degrees_celsius''),
      (KStr ''divider'', VInt 16)]"

definition humidity_config :: pydict where
  "humidity_config =
     [(KStr ''item_type'', VStr ''channel''), (KStr ''channel_id'', VInt 2),
      (KStr ''quantity'', VStr ''humidity''), (KStr ''unit'', VStr ''percent_rh''),
      (KStr ''divider'', VInt 16)]"

definition vcc_config :: pydict where
  "vcc_config =
     [(KStr ''item_type'', VStr ''channel''), (KStr ''channel_id'', VInt 3),
      (KStr ''quantity'', VStr ''voltage''), (KStr ''unit'', VStr ''volt''),
      (KStr ''measured'', VStr ''supply''), (KStr ''divider'', VInt 100),
      (KStr ''offset'', VInt 1)]"

definition battery_config :: pydict where
  "battery_config =
     [(KStr ''item_type'', VStr ''channel''), (KStr ''channel_id'', VInt 4),
      (KStr ''quantity'', VStr ''voltage''), (KStr ''unit'', VStr ''volt''),
      (KStr ''measured'', VStr ''battery''), (KStr ''divider'', VInt 50),
      (KStr ''offset'', VInt 1)]"

definition lux_config :: pydict where
  "lux_config =
     [(KStr ''item_type'', VStr ''channel''), (KStr ''channel_id'', VInt 5),
      (KStr ''quantity'', VStr ''ambient_light''), (KStr ''unit'', VStr ''lux'')]"

definition pm25_config :: pydict where
  "pm25_config =
     [(KStr ''item_type'', VStr ''channel''), (KStr ''channel_id'', VInt 6),
      (KStr ''quantity'', VStr ''particulate_matter''),
      (KStr ''unit'', VStr ''ug_per_cubic_meter''), (KStr ''measured:size'', VFloat (5 / 2))]"

definition pm10_config :: pydict where
  "pm10_config =
     [(KStr ''item_type'', VStr ''channel''), (KStr ''channel_id'', VInt 7),
      (KStr ''quantity'', VStr ''particulate_matter''),
      (KStr ''unit'', VStr ''ug_per_cubic_meter''), (KStr ''measured:size'', VInt 10)]"

definition extra_config :: pydict where
  "extra_config = [(KStr ''item_type'', VStr ''channel''), (KStr ''channel_id'', VInt 8)]"

text \<open>\<^verbatim>\<open>{"channel_id": c, "value": v}\<close>\<close>

definition reading :: "int \<Rightarrow> pyval \<Rightarrow> pyval" where
  "reading c v = VDict [(KStr ''channel_id'', VInt c), (KStr ''value'', v)]"

text \<open>The \<^verbatim>\<open>have_...\<close> variables of \<^verbatim>\<open>process_data\<close>, all False at first.\<close>

record presence =
  have_supply :: bool
  have_battery :: bool
  have_firmware :: bool
  have_lux :: bool
  have_pm :: bool
  have_extra :: bool

definition no_presence :: presence where
  "no_presence =
     \<lparr>have_supply = False, have_battery = False, have_firmware = False, have_lux = False,
      have_pm = False, have_extra = False\<rparr>"

text \<open>
  Lines 177 to 247: the layout is chosen by port and payload length, or on port 13 by the
  flag byte, which is read from the stream; port 13 also sets the divider of the
  ambient-light descriptor. \<open>Inr None\<close> is the logged warning followed by \<^verbatim>\<open>return\<close>.
\<close>

definition select_layout ::
  "jval \<Rightarrow> nat \<Rightarrow> bitstream \<Rightarrow> error + (presence \<times> pydict \<times> bitstream) option"
where
  "select_layout port len stream =
     (if py_eq_int port 10 then
        (if len = 9 then Inr (Some (no_presence, lux_config, stream))
         else if len = 10 then
           Inr (Some (no_presence\<lparr>have_supply := True\<rparr>, lux_config, stream))
         else if len = 11 then
           Inr (Some (no_presence\<lparr>have_supply := True, have_battery := True\<rparr>, lux_config, stream))
         else Inr None)
      else if py_eq_int port 11 then
        (let h = no_presence\<lparr>have_firmware := True, have_supply := True\<rparr> in
         if len = 11 then Inr (Some (h, lux_config, stream))
         else if len = 12 then Inr (Some (h\<lparr>have_battery := True\<rparr>, lux_config, stream))
         else if len = 15 then Inr (Some (h\<lparr>have_pm := True\<rparr>, lux_config, stream))
         else if len = 16 then
           Inr (Some (h\<lparr>have_battery := True, have_pm := True\<rparr>, lux_config, stream))
         else Inr None)
      else if py_eq_int port 12 then
        (let h = no_presence\<lparr>have_firmware := True, have_supply := True, have_lux := True\<rparr> in
         if len = 13 then Inr (Some (h, lux_config, stream))
         else if len = 14 then Inr (Some (h\<lparr>have_battery := True\<rparr>, lux_config, stream))
         else if len = 17 then Inr (Some (h\<lparr>have_pm := True\<rparr>, lux_config, stream))
         else if len = 18 then
           Inr (Some (h\<lparr>have_battery := True, have_pm := True\<rparr>, lux_config, stream))
         else Inr None)
      else if py_eq_int port 13 then
        (let h = no_presence\<lparr>have_firmware := True, have_supply := True, have_lux := True\<rparr> in
         then_do (read_bool stream) (\<lambda>(lux, s1).
         then_do (read_bool s1) (\<lambda>(pm, s2).
         then_do (read_bool s2) (\<lambda>(battery, s3).
         then_do (read_uint s3 4) (\<lambda>(unused, s4).
         then_do (read_bool s4) (\<lambda>(extra, s5).
         Inr (Some (h\<lparr>have_lux := lux, have_pm := pm, have_battery := battery,
                       have_extra := extra\<rparr>,
                    dict_set lux_config (KStr ''divider'') (VInt 4), s5))))))))
      else Inr None)"

text \<open>
  Lines 284 to 297: the loop over the extra values. Each round reads a 5-bit size and
  then size + 1 bits of value; it leaves the loop when fewer than 5 bits are left, or
  fewer bits than the size just read asks for.
\<close>

function extra_loop :: "bitstream \<Rightarrow> int list \<Rightarrow> error + (int list \<times> bitstream)" where
  "extra_loop stream extra_value =
     (if bitpos stream < length (bits stream) then
        (if remaining stream < 5 then Inr (extra_value, stream)
         else (case read_uint stream 5 of
                 Inl e \<Rightarrow> Inl e
               | Inr (size5, s1) \<Rightarrow>
                   (let nbits = nat (size5 + 1) in
                    if remaining s1 < nbits then Inr (extra_value, s1)
                    else (case read_bits s1 nbits of
                            Inl e \<Rightarrow> Inl e
                          | Inr (v, s2) \<Rightarrow> extra_loop s2 (extra_value @ [bits_uint v])))))
      else Inr (extra_value, stream))"
  by pat_completeness auto
termination
proof (relation "measure (\<lambda>(stream, extra_value). remaining stream)")
  show "wf (measure (\<lambda>(stream, extra_value). remaining stream))"
    by simp
next
  fix stream :: bitstream and extra_value :: "int list" and x2 size5 s1 nbits x2a v s2
  assume less: "bitpos stream < length (bits stream)"
    and five: "\<not> remaining stream < 5"
    and r1: "read_uint stream 5 = Inr x2" "(size5, s1) = x2"
    and nb: "nbits = nat (size5 + 1)" "\<not> remaining s1 < nbits"
    and r2: "read_bits s1 nbits = Inr x2a" "(v, s2) = x2a"
  from r1 have s1: "bits s1 = bits stream" "bitpos s1 = bitpos stream + 5"
    by (auto simp: read_uint_def read_bits_def then_do_def split: if_splits)
  from r2 have s2: "bits s2 = bits s1" "bitpos s2 = bitpos s1 + nbits"
    by (auto simp: read_bits_def split: if_splits)
  from less s1 s2 show "((s2, extra_value @ [bits_uint v]), stream, extra_value)
        \<in> measure (\<lambda>(stream, extra_value). remaining stream)"
    by (simp add: remaining_def)
qed

declare extra_loop.simps [simp del]

text \<open>
  Lines 249 to 300, block by block. Each block returns what it appends to
  \<^verbatim>\<open>config\<close> and to \<^verbatim>\<open>data\<close>, and the stream after its reads. The firmware version
  goes into the node descriptor, which is the first element of \<^verbatim>\<open>config\<close>.
\<close>

definition read_firmware :: "presence \<Rightarrow> bitstream \<Rightarrow> error + (pydict \<times> bitstream)" where
  "read_firmware h stream =
     (if have_firmware h
      then then_do (read_uint stream 8) (\<lambda>(fw, s).
             Inr (dict_set node_config (KStr ''firmware_version'') (VInt fw), s))
      else Inr (node_config, stream))"

definition read_supply ::
  "presence \<Rightarrow> bitstream \<Rightarrow> error + (pyval list \<times> pyval list \<times> bitstream)"
where
  "read_supply h stream =
     (if have_supply h
      then then_do (read_uint stream 8) (\<lambda>(v, s).
             Inr ([VDict vcc_config], [reading 3 (VInt v)], s))
      else Inr ([], [], stream))"

definition read_lux ::
  "presence \<Rightarrow> pydict \<Rightarrow> bitstream \<Rightarrow> error + (pyval list \<times> pyval list \<times> bitstream)"
where
  "read_lux h lux_cfg stream =
     (if have_lux h
      then then_do (read_uint stream 16) (\<lambda>(v, s).
             Inr ([VDict lux_cfg], [reading 5 (VInt v)], s))
      else Inr ([], [], stream))"

definition read_pm ::
  "presence \<Rightarrow> bitstream \<Rightarrow> error + (pyval list \<times> pyval list \<times> bitstream)"
where
  "read_pm h stream =
     (if have_pm h
      then then_do (read_uint stream 16) (\<lambda>(v25, s).
           then_do (read_uint s 16) (\<lambda>(v10, s').
             Inr ([VDict pm25_config, VDict pm10_config],
                  [reading 6 (VInt v25), reading 7 (VInt v10)], s')))
      else Inr ([], [], stream))"

definition read_battery ::
  "presence \<Rightarrow> bitstream \<Rightarrow> error + (pyval list \<times> pyval list \<times> bitstream)"
where
  "read_battery h stream =
     (if have_battery h
      then then_do (read_uint stream 8) (\<lambda>(v, s).
             Inr ([VDict battery_config], [reading 4 (VInt v)], s))
      else Inr ([], [], stream))"

definition read_extra ::
  "presence \<Rightarrow> bitstream \<Rightarrow> error + (pyval list \<times> pyval list \<times> bitstream)"
where
  "read_extra h stream =
     (if have_extra h
      then then_do (extra_loop stream []) (\<lambda>(extra_value, s).
             Inr ([VDict extra_config], [reading 8 (VList (map VInt extra_value))], s))
      else Inr ([], [], stream))"

definition read_fields ::
  "presence \<Rightarrow> pydict \<Rightarrow> bitstream \<Rightarrow> error + (pyval list \<times> pyval list)"
where
  "read_fields h lux_cfg stream =
     then_do (read_firmware h stream) (\<lambda>(node_cfg, s0).
     then_do (read_int s0 24) (\<lambda>(lat, s1).
     then_do (read_int s1 24) (\<lambda>(lon, s2).
     then_do (read_int s2 12) (\<lambda>(temperature, s3).
     then_do (read_int s3 12) (\<lambda>(humidity, s4).
     then_do (read_supply h s4) (\<lambda>(config3, data3, s5).
     then_do (read_lux h lux_cfg s5) (\<lambda>(config5, data5, s6).
     then_do (read_pm h s6) (\<lambda>(config6, data6, s7).
     then_do (read_battery h s7) (\<lambda>(config4, data4, s8).
     then_do (read_extra h s8) (\<lambda>(config8, data8, s9).
     Inr ([VDict node_cfg, VDict position_config, VDict temperature_config,
           VDict humidity_config] @ config3 @ config5 @ config6 @ config4 @ config8,
          [reading 0 (VList [VInt lat, VInt lon]), reading 1 (VInt temperature),
           reading 2 (VInt humidity)] @ data3 @ data5 @ data6 @ data4 @ data8)))))))))))"

text \<open>
  Lines 96 to 300: \<open>Inr None\<close> when the packet is dropped with a warning, the
  descriptors and the readings otherwise.
\<close>

definition process_data_decode ::
  "envelope \<Rightarrow> byte list \<Rightarrow> error + (pyval list \<times> pyval list) option"
where
  "process_data_decode msg_obj payload =
     (let stream = ConstBitStream payload in
      then_do (dict_get msg_obj ''port'') (\<lambda>port.
      then_do (select_layout port (length payload) stream) (\<lambda>layout.
      case layout of
        None \<Rightarrow> Inr None
      | Some (h, lux_cfg, s) \<Rightarrow> then_do (read_fields h lux_cfg s) (\<lambda>r. Inr (Some r)))))"

section \<open>Message Emitter\<close>

text \<open>
  The library calls of \<^verbatim>\<open>produce_message\<close> are parameters of the model:
  \<^verbatim>\<open>cbor2.dumps\<close>, \<^verbatim>\<open>base64.b64encode\<close>, \<^verbatim>\<open>bytes.decode("utf8")\<close>,
  \<^verbatim>\<open>json.dumps\<close> and \<^verbatim>\<open>str.encode("utf8")\<close>.
\<close>

record libs =
  cbor2_dumps :: "pyval \<Rightarrow> byte list"
  b64encode :: "byte list \<Rightarrow> byte list"
  decode_utf8 :: "byte list \<Rightarrow> string"
  json_dumps :: "envelope \<Rightarrow> string"
  encode_utf8 :: "string \<Rightarrow> byte list"

text \<open>\<^verbatim>\<open>produce_message\<close> changes \<^verbatim>\<open>msg_obj\<close> in place: the model returns the changed
  envelope beside the bytes.\<close>

definition produce_message :: "libs \<Rightarrow> envelope \<Rightarrow> pyval \<Rightarrow> int \<Rightarrow> envelope \<times> byte list" where
  "produce_message L msg_obj payload port =
     (let msg1 = dict_set msg_obj ''port'' (JInt port);
          payload_cbor = cbor2_dumps L payload;
          msg2 = dict_set msg1 ''payload_raw'' (JStr (decode_utf8 L (b64encode L payload_cbor)));
          msg_as_string = json_dumps L msg2;
          msg_as_bytes = encode_utf8 L msg_as_string
      in (msg2, msg_as_bytes))"

section \<open>Config State Tracker\<close>

text \<open>\<^verbatim>\<open>make_ttn_node_id\<close>: \<^verbatim>\<open>"ttn/{}/{}".format(msg["app_id"], msg["dev_id"])\<close>\<close>

definition make_ttn_node_id :: "envelope \<Rightarrow> error + string" where
  "make_ttn_node_id msg =
     then_do (dict_get msg ''app_id'') (\<lambda>app_id.
     then_do (dict_get msg ''dev_id'') (\<lambda>dev_id.
     Inr (''ttn/'' @ py_str app_id @ ''/'' @ py_str dev_id)))"

text \<open>\<^verbatim>\<open>last_counter_seen\<close>: maps station ids to the last frame counter seen.\<close>

type_synonym counters = "string \<rightharpoonup> jval"

text \<open>
  Lines 305 to 314 of \<^verbatim>\<open>process_data\<close>: the decision \<^verbatim>\<open>generate_config\<close> and the
  update of \<^verbatim>\<open>last_counter_seen\<close>. The \<^verbatim>\<open>except KeyError\<close> catches the missing
  entry only: a TypeError of the comparison leaves the function before the update.
\<close>

definition generate_config :: "counters \<Rightarrow> string \<Rightarrow> jval \<Rightarrow> error + (bool \<times> counters)" where
  "generate_config last_counter_seen node_id msg_counter =
     then_do (case last_counter_seen node_id of
                None \<Rightarrow> Inr True
              | Some last_counter \<Rightarrow> py_gt last_counter msg_counter) (\<lambda>gen.
     Inr (gen, last_counter_seen(node_id \<mapsto> msg_counter)))"

section \<open>Processing one packet\<close>

text \<open>
  \<^verbatim>\<open>process_data\<close> is a generator: the model returns the new
  \<^verbatim>\<open>last_counter_seen\<close> and the list of the messages it yields. Every exception of the
  function is raised before the update of \<^verbatim>\<open>last_counter_seen\<close> and before the first
  \<^verbatim>\<open>yield\<close>, so \<open>Inl\<close> stands for no message and an unchanged mapping.
\<close>

definition process_data ::
  "libs \<Rightarrow> counters \<Rightarrow> envelope \<Rightarrow> byte list \<Rightarrow> error + (counters \<times> byte list list)"
where
  "process_data L last_counter_seen msg_obj payload =
     then_do (process_data_decode msg_obj payload) (\<lambda>decoded.
     case decoded of
       None \<Rightarrow> Inr (last_counter_seen, [])
     | Some (config, data) \<Rightarrow>
         then_do (make_ttn_node_id msg_obj) (\<lambda>node_id.
         then_do (dict_get msg_obj ''counter'') (\<lambda>msg_counter.
         then_do (generate_config last_counter_seen node_id msg_counter) (\<lambda>(gen, counters').
         if gen then
           (let (msg1, config_message) =
                  produce_message L msg_obj (VList (map encode config)) CONFIG_PORT;
                (msg2, data_message) = produce_message L msg1 (VList data) DATA_PORT
            in Inr (counters', [config_message, data_message]))
         else
           (let (msg2, data_message) = produce_message L msg_obj (VList data) DATA_PORT
            in Inr (counters', [data_message]))))))"

section \<open>Observations and example inputs\<close>

text \<open>The descriptors of \<^verbatim>\<open>config\<close> whose \<^verbatim>\<open>channel_id\<close> is \<open>c\<close>, and a field of a
  descriptor.\<close>

definition descriptor_field :: "pyval \<Rightarrow> string \<Rightarrow> pyval option" where
  "descriptor_field d k = (case d of VDict kv \<Rightarrow> map_of kv (KStr k) | _ \<Rightarrow> None)"

definition channel_descriptors :: "int \<Rightarrow> pyval list \<Rightarrow> pyval list" where
  "channel_descriptors c config =
     filter (\<lambda>d. descriptor_field d ''channel_id'' = Some (VInt c)) config"

text \<open>The number of bits that \<^verbatim>\<open>process_data\<close> reads after the layout is chosen and
  before the extra values.\<close>

definition fields_bits :: "presence \<Rightarrow> nat" where
  "fields_bits h =
     (if have_firmware h then 8 else 0) + 72 + (if have_supply h then 8 else 0)
     + (if have_lux h then 16 else 0) + (if have_pm h then 32 else 0)
     + (if have_battery h then 8 else 0)"

text \<open>The low \<open>k\<close> bits of \<open>n\<close>, most significant bit first.\<close>

fun to_bits :: "nat \<Rightarrow> nat \<Rightarrow> bool list" where
  "to_bits 0 n = []"
| "to_bits (Suc k) n = to_bits k (n div 2) @ [odd n]"

text \<open>
  The wire form of one extra value in the words of the specification: a 5-bit unsigned
  size \<open>s\<close>, then the \<open>s + 1\<close> bits of the value. The loop of \<^verbatim>\<open>process_data\<close> is
  compared with it.
\<close>

definition encode_extra :: "bool list \<Rightarrow> bool list" where
  "encode_extra v = to_bits 5 (length v - 1) @ v"

text \<open>
  Port-13 payloads: flag byte \<open>0xA1\<close> (ambient light, battery and extra values) with one
  extra value of four bits and a pad of ones; flag byte \<open>0x01\<close> (extra values only) with
  nothing after the supply voltage. A port-12 payload of 13 bytes.
\<close>

definition flags_payload :: "byte list" where
  "flags_payload =
     [0xA1, 0x07, 0x00, 0x00, 0x01, 0xFF, 0xFF, 0xFF, 0x06, 0x41, 0x90, 0x21, 0x01, 0x00,
      0x19, 0x1D, 0xFF]"

definition no_extras_payload :: "byte list" where
  "no_extras_payload =
     [0x01, 0x07, 0x00, 0x00, 0x01, 0xFF, 0xFF, 0xFF, 0x06, 0x41, 0x90, 0x21]"

definition lux_payload :: "byte list" where
  "lux_payload =
     [0x07, 0x00, 0x00, 0x01, 0xFF, 0xFF, 0xFF, 0x06, 0x41, 0x90, 0x21, 0x01, 0x00]"

text \<open>Stand-ins for the library calls, for evaluating \<^verbatim>\<open>process_data\<close> on concrete
  inputs: the serialised envelope shows its port only.\<close>

definition example_libs :: libs where
  "example_libs =
     \<lparr>cbor2_dumps = (\<lambda>v. []),
      b64encode = (\<lambda>bs. bs),
      decode_utf8 = (\<lambda>bs. []),
      json_dumps = (\<lambda>m. case map_of m ''port'' of None \<Rightarrow> [] | Some v \<Rightarrow> py_str v),
      encode_utf8 = map (\<lambda>c. of_nat (of_char c))\<rparr>"

definition example_msg :: "int \<Rightarrow> envelope" where
  "example_msg port =
     [(''app_id'', JStr ''a''), (''dev_id'', JStr ''d''), (''port'', JInt port),
      (''counter'', JInt 5)]"

text \<open>Nine bytes: position \<open>0x000001\<close> and \<open>0xFFFFFF\<close>, temperature 100 (\<open>0x064\<close>),
  humidity 400 (\<open>0x190\<close>).\<close>

definition scenario_payload :: "byte list" where
  "scenario_payload = [0x00, 0x00, 0x01, 0xFF, 0xFF, 0xFF, 0x06, 0x41, 0x90]"

section \<open>Helper lemmas\<close>

subsection \<open>Dictionaries, emission\<close>

lemma then_do_Inr [simp]: "then_do (Inr x) f = f x"
  by (simp add: then_do_def)

lemma then_do_Inl [simp]: "then_do (Inl e) f = Inl e"
  by (simp add: then_do_def)

lemma then_do_eq_Inr: "then_do m f = Inr r \<longleftrightarrow> (\<exists>x. m = Inr x \<and> f x = Inr r)"
  by (cases m) simp_all

lemma map_of_dict_set: "map_of (dict_set d k v) = (map_of d)(k \<mapsto> v)"
  by (induction d) (auto simp: fun_eq_iff)

lemma dict_set_twice: "dict_set (dict_set d k a) k b = dict_set d k b"
  by (induction d) auto

lemma dict_set_overwrite:
  "k \<noteq> k' \<Longrightarrow>
   dict_set (dict_set (dict_set (dict_set d k a) k' b) k c) k' e = dict_set (dict_set d k c) k' e"
  by (induction d) (auto simp: dict_set_twice)

lemma produce_message_again:
  "produce_message L (fst (produce_message L msg_obj p q)) p' q' = produce_message L msg_obj p' q'"
  by (simp add: produce_message_def Let_def dict_set_overwrite)

lemma process_data_after_decode:
  assumes "process_data_decode msg_obj payload = Inr (Some (config, data))"
    and "make_ttn_node_id msg_obj = Inr n"
    and "dict_get msg_obj ''counter'' = Inr c"
    and "generate_config st n c = Inr (gen, st')"
  shows "process_data L st msg_obj payload =
     Inr (st', (if gen then [snd (produce_message L msg_obj (VList (map encode config)) CONFIG_PORT)]
                else [])
               @ [snd (produce_message L msg_obj (VList data) DATA_PORT)])"
  using assms
    produce_message_again [of L msg_obj "VList (map encode config)" CONFIG_PORT "VList data" DATA_PORT]
  by (simp add: process_data_def split_beta Let_def)

lemma scenario_decode:
  assumes "dict_get msg_obj ''port'' = Inr port" and "py_eq_int port 10"
  shows "process_data_decode msg_obj scenario_payload =
     Inr (Some ([VDict node_config, VDict position_config, VDict temperature_config,
                 VDict humidity_config],
                [reading 0 (VList [VInt 1, VInt (- 1)]), reading 1 (VInt 100),
                 reading 2 (VInt 400)]))"
  using assms
  by (simp add: process_data_decode_def select_layout_def scenario_payload_def
      ConstBitStream_def byte_bits_def read_fields_def no_presence_def read_int_def
      read_bits_def bits_int_def bits_uint_def read_firmware_def read_supply_def read_lux_def
      read_pm_def read_battery_def read_extra_def)

lemma example_msg_fields:
  "dict_get (example_msg p) ''port'' = Inr (JInt p)"
  "make_ttn_node_id (example_msg p) = Inr ''ttn/a/d''"
  "dict_get (example_msg p) ''counter'' = Inr (JInt 5)"
  by (simp_all add: example_msg_def dict_get_def make_ttn_node_id_def)

subsection \<open>Reads of the bit stream\<close>

lemma read_bits_Inr:
  "read_bits s n = Inr r \<longleftrightarrow>
     bitpos s + n \<le> length (bits s)
     \<and> r = (take n (drop (bitpos s) (bits s)), s\<lparr>bitpos := bitpos s + n\<rparr>)"
  by (auto simp: read_bits_def)

lemma read_uint_Inr:
  "read_uint s n = Inr r \<longleftrightarrow>
     bitpos s + n \<le> length (bits s)
     \<and> r = (bits_uint (take n (drop (bitpos s) (bits s))), s\<lparr>bitpos := bitpos s + n\<rparr>)"
  by (auto simp: read_uint_def then_do_eq_Inr read_bits_Inr)

lemma read_int_Inr:
  "read_int s n = Inr r \<longleftrightarrow>
     bitpos s + n \<le> length (bits s)
     \<and> r = (bits_int (take n (drop (bitpos s) (bits s))), s\<lparr>bitpos := bitpos s + n\<rparr>)"
  by (auto simp: read_int_def then_do_eq_Inr read_bits_Inr)

lemma read_bits_enough:
  "bitpos s + n \<le> length (bits s) \<Longrightarrow>
   read_bits s n = Inr (take n (drop (bitpos s) (bits s)), s\<lparr>bitpos := bitpos s + n\<rparr>)"
  by (simp add: read_bits_def)

lemma read_uint_enough:
  "bitpos s + n \<le> length (bits s) \<Longrightarrow>
   read_uint s n =
     Inr (bits_uint (take n (drop (bitpos s) (bits s))), s\<lparr>bitpos := bitpos s + n\<rparr>)"
  by (simp add: read_uint_def read_bits_enough)

lemma read_int_enough:
  "bitpos s + n \<le> length (bits s) \<Longrightarrow>
   read_int s n =
     Inr (bits_int (take n (drop (bitpos s) (bits s))), s\<lparr>bitpos := bitpos s + n\<rparr>)"
  by (simp add: read_int_def read_bits_enough)

subsection \<open>The loop over the extra values\<close>

lemma bits_uint_snoc: "bits_uint (bs @ [b]) = 2 * bits_uint bs + (if b then 1 else 0)"
  by (simp add: bits_uint_def)

lemma length_to_bits [simp]: "length (to_bits k n) = k"
  by (induction k arbitrary: n) simp_all

lemma bits_uint_to_bits: "bits_uint (to_bits k n) = int (n mod 2 ^ k)"
proof (induction k arbitrary: n)
  case 0
  show ?case by (simp add: bits_uint_def)
next
  case (Suc k)
  have "n mod (2 * 2 ^ k) = 2 * (n div 2 mod 2 ^ k) + n mod 2"
    by (rule mod_mult2_eq)
  then show ?case
    by (simp add: bits_uint_snoc Suc.IH odd_iff_mod_2_eq_one)
qed

lemma extra_loop_stop:
  "length (bits s) < bitpos s + 5 \<Longrightarrow> extra_loop s acc = Inr (acc, s)"
  by (subst extra_loop.simps) (auto simp: remaining_def)

lemma extra_loop_step:
  assumes "bits s = pre @ encode_extra v @ rest" and "bitpos s = length pre"
    and "1 \<le> length v" and "length v \<le> 32"
  shows "extra_loop s acc =
     extra_loop (s\<lparr>bitpos := length pre + length (encode_extra v)\<rparr>) (acc @ [bits_uint v])"
proof -
  have sz: "bits_uint (to_bits 5 (length v - 1)) = int (length v) - 1"
    using assms(3,4) by (simp add: bits_uint_to_bits)
  have r1: "read_uint s 5 = Inr (int (length v) - 1, s\<lparr>bitpos := length pre + 5\<rparr>)"
    using assms(1,2) sz by (simp add: read_uint_enough encode_extra_def)
  have r2: "read_bits (s\<lparr>bitpos := length pre + 5\<rparr>) (length v) =
      Inr (v, s\<lparr>bitpos := length pre + 5 + length v\<rparr>)"
    using assms(1,2) by (simp add: read_bits_enough encode_extra_def)
  show ?thesis
    using assms r1 r2
    by (subst extra_loop.simps) (simp add: remaining_def encode_extra_def add.assoc)
qed

lemma extra_loop_roundtrip:
  assumes "\<forall>v \<in> set vs. 1 \<le> length v \<and> length v \<le> 32" and "length pad < 5"
  shows "extra_loop \<lparr>bits = pre @ concat (map encode_extra vs) @ pad, bitpos = length pre\<rparr> acc =
     Inr (acc @ map bits_uint vs,
          \<lparr>bits = pre @ concat (map encode_extra vs) @ pad,
           bitpos = length pre + length (concat (map encode_extra vs))\<rparr>)"
  using assms(1)
proof (induction vs arbitrary: pre acc)
  case Nil
  show ?case using assms(2) by (simp add: extra_loop_stop)
next
  case (Cons v vs)
  have "extra_loop \<lparr>bits = pre @ concat (map encode_extra (v # vs)) @ pad, bitpos = length pre\<rparr> acc =
      extra_loop \<lparr>bits = (pre @ encode_extra v) @ concat (map encode_extra vs) @ pad,
                  bitpos = length (pre @ encode_extra v)\<rparr> (acc @ [bits_uint v])"
    using Cons.prems
    by (subst extra_loop_step [where pre = pre and v = v
          and rest = "concat (map encode_extra vs) @ pad"]) simp_all
  also have "\<dots> = Inr ((acc @ [bits_uint v]) @ map bits_uint vs,
          \<lparr>bits = (pre @ encode_extra v) @ concat (map encode_extra vs) @ pad,
           bitpos = length (pre @ encode_extra v) + length (concat (map encode_extra vs))\<rparr>)"
    using Cons.prems by (intro Cons.IH) simp
  finally show ?case by simp
qed

lemma extra_loop_total: "\<exists>r. extra_loop s acc = Inr r"
proof (induction s acc rule: extra_loop.induct)
  case (1 stream extra_value)
  show ?case
  proof (cases "bitpos stream < length (bits stream) \<and> \<not> remaining stream < 5")
    case False
    then show ?thesis
      by (subst extra_loop.simps) auto
  next
    case True
    then have enough: "bitpos stream + 5 \<le> length (bits stream)"
      unfolding remaining_def by arith
    then have r1: "read_uint stream 5 =
        Inr (bits_uint (take 5 (drop (bitpos stream) (bits stream))),
             stream\<lparr>bitpos := bitpos stream + 5\<rparr>)"
      by (rule read_uint_enough)
    define size5 where "size5 = bits_uint (take 5 (drop (bitpos stream) (bits stream)))"
    define s1 where "s1 = stream\<lparr>bitpos := bitpos stream + 5\<rparr>"
    show ?thesis
    proof (cases "remaining s1 < nat (size5 + 1)")
      case True
      with \<open>bitpos stream < length (bits stream) \<and> \<not> remaining stream < 5\<close> r1 show ?thesis
        by (subst extra_loop.simps) (simp add: size5_def s1_def)
    next
      case False
      with enough have "bitpos s1 + nat (size5 + 1) \<le> length (bits s1)"
        unfolding remaining_def s1_def by simp
      then have r2: "read_bits s1 (nat (size5 + 1)) =
          Inr (take (nat (size5 + 1)) (drop (bitpos s1) (bits s1)),
               s1\<lparr>bitpos := bitpos s1 + nat (size5 + 1)\<rparr>)"
        by (rule read_bits_enough)
      from True have a: "bitpos stream < length (bits stream)" and b: "\<not> remaining stream < 5"
        by simp_all
      have "\<exists>r. extra_loop (s1\<lparr>bitpos := bitpos s1 + nat (size5 + 1)\<rparr>)
          (extra_value @ [bits_uint (take (nat (size5 + 1)) (drop (bitpos s1) (bits s1)))]) = Inr r"
        using "1.IH" [OF a b r1 [folded size5_def s1_def] refl refl False r2 refl] .
      with True r1 r2 False show ?thesis
        by (subst extra_loop.simps) (simp add: size5_def s1_def Let_def)
    qed
  qed
qed

subsection \<open>What a successful decode returns\<close>

lemma read_firmware_InrD:
  "read_firmware h s = Inr (c, s') \<Longrightarrow>
     (\<exists>fw. c = (if have_firmware h then dict_set node_config (KStr ''firmware_version'') (VInt fw)
                else node_config))
     \<and> bits s' = bits s \<and> bitpos s' = bitpos s + (if have_firmware h then 8 else 0)"
  by (auto simp: read_firmware_def then_do_eq_Inr read_uint_Inr split: if_splits)

lemma read_supply_InrD:
  "read_supply h s = Inr (c, d, s') \<Longrightarrow>
     c = (if have_supply h then [VDict vcc_config] else [])
     \<and> (\<exists>v. d = (if have_supply h then [reading 3 (VInt v)] else []))
     \<and> bits s' = bits s \<and> bitpos s' = bitpos s + (if have_supply h then 8 else 0)"
  by (auto simp: read_supply_def then_do_eq_Inr read_uint_Inr split: if_splits)

lemma read_lux_InrD:
  "read_lux h lc s = Inr (c, d, s') \<Longrightarrow>
     c = (if have_lux h then [VDict lc] else [])
     \<and> (\<exists>v. d = (if have_lux h then [reading 5 (VInt v)] else []))
     \<and> bits s' = bits s \<and> bitpos s' = bitpos s + (if have_lux h then 16 else 0)"
  by (auto simp: read_lux_def then_do_eq_Inr read_uint_Inr split: if_splits)

lemma read_pm_InrD:
  "read_pm h s = Inr (c, d, s') \<Longrightarrow>
     c = (if have_pm h then [VDict pm25_config, VDict pm10_config] else [])
     \<and> (\<exists>v25 v10. d = (if have_pm h then [reading 6 (VInt v25), reading 7 (VInt v10)] else []))
     \<and> bits s' = bits s \<and> bitpos s' = bitpos s + (if have_pm h then 32 else 0)"
  by (auto simp: read_pm_def then_do_eq_Inr read_uint_Inr split: if_splits)

lemma read_battery_InrD:
  "read_battery h s = Inr (c, d, s') \<Longrightarrow>
     c = (if have_battery h then [VDict battery_config] else [])
     \<and> (\<exists>v. d = (if have_battery h then [reading 4 (VInt v)] else []))
     \<and> bits s' = bits s \<and> bitpos s' = bitpos s + (if have_battery h then 8 else 0)"
  by (auto simp: read_battery_def then_do_eq_Inr read_uint_Inr split: if_splits)

lemma read_extra_InrD:
  "read_extra h s = Inr (c, d, s') \<Longrightarrow>
     c = (if have_extra h then [VDict extra_config] else [])
     \<and> (\<exists>ex. d = (if have_extra h then [reading 8 (VList (map VInt ex))] else [])
            \<and> (have_extra h \<longrightarrow> extra_loop s [] = Inr (ex, s')))"
  by (auto simp: read_extra_def then_do_eq_Inr split: if_splits)

lemma read_fields_InrD:
  assumes "read_fields h lc s = Inr (config, data)"
  shows "\<exists>fw lat lon t hu v3 v5 v25 v10 v4 ex s8 s9.
    config =
      [VDict (if have_firmware h then dict_set node_config (KStr ''firmware_version'') (VInt fw)
              else node_config),
       VDict position_config, VDict temperature_config, VDict humidity_config]
      @ (if have_supply h then [VDict vcc_config] else [])
      @ (if have_lux h then [VDict lc] else [])
      @ (if have_pm h then [VDict pm25_config, VDict pm10_config] else [])
      @ (if have_battery h then [VDict battery_config] else [])
      @ (if have_extra h then [VDict extra_config] else [])
    \<and> data =
      [reading 0 (VList [VInt lat, VInt lon]), reading 1 (VInt t), reading 2 (VInt hu)]
      @ (if have_supply h then [reading 3 (VInt v3)] else [])
      @ (if have_lux h then [reading 5 (VInt v5)] else [])
      @ (if have_pm h then [reading 6 (VInt v25), reading 7 (VInt v10)] else [])
      @ (if have_battery h then [reading 4 (VInt v4)] else [])
      @ (if have_extra h then [reading 8 (VList (map VInt ex))] else [])
    \<and> bits s8 = bits s \<and> bitpos s8 = bitpos s + fields_bits h
    \<and> (have_extra h \<longrightarrow> extra_loop s8 [] = Inr (ex, s9))"
proof -
  from assms obtain node_cfg s0 lat s1 lon s2 t s3 hu s4 c3 d3 s5 c5 d5 s6 c6 d6 s7 c4 d4 s8
      c8 d8 s9 where
    fw: "read_firmware h s = Inr (node_cfg, s0)"
    and r1: "read_int s0 24 = Inr (lat, s1)" and r2: "read_int s1 24 = Inr (lon, s2)"
    and r3: "read_int s2 12 = Inr (t, s3)" and r4: "read_int s3 12 = Inr (hu, s4)"
    and su: "read_supply h s4 = Inr (c3, d3, s5)"
    and lu: "read_lux h lc s5 = Inr (c5, d5, s6)"
    and pm: "read_pm h s6 = Inr (c6, d6, s7)"
    and ba: "read_battery h s7 = Inr (c4, d4, s8)"
    and ex: "read_extra h s8 = Inr (c8, d8, s9)"
    and config: "config = [VDict node_cfg, VDict position_config, VDict temperature_config,
           VDict humidity_config] @ c3 @ c5 @ c6 @ c4 @ c8"
    and data: "data = [reading 0 (VList [VInt lat, VInt lon]), reading 1 (VInt t),
           reading 2 (VInt hu)] @ d3 @ d5 @ d6 @ d4 @ d8"
    unfolding read_fields_def by (auto simp: then_do_eq_Inr)
  from r1 r2 r3 r4 have s4: "bits s4 = bits s0" "bitpos s4 = bitpos s0 + 72"
    by (auto simp: read_int_Inr)
  from read_firmware_InrD [OF fw] obtain fwv where
    nc: "node_cfg = (if have_firmware h
           then dict_set node_config (KStr ''firmware_version'') (VInt fwv) else node_config)"
    and p0: "bits s0 = bits s" "bitpos s0 = bitpos s + (if have_firmware h then 8 else 0)"
    by blast
  from read_supply_InrD [OF su] obtain v3 where
    c3: "c3 = (if have_supply h then [VDict vcc_config] else [])"
    and d3: "d3 = (if have_supply h then [reading 3 (VInt v3)] else [])"
    and p5: "bits s5 = bits s4" "bitpos s5 = bitpos s4 + (if have_supply h then 8 else 0)"
    by blast
  from read_lux_InrD [OF lu] obtain v5 where
    c5: "c5 = (if have_lux h then [VDict lc] else [])"
    and d5: "d5 = (if have_lux h then [reading 5 (VInt v5)] else [])"
    and p6: "bits s6 = bits s5" "bitpos s6 = bitpos s5 + (if have_lux h then 16 else 0)"
    by blast
  from read_pm_InrD [OF pm] obtain v25 v10 where
    c6: "c6 = (if have_pm h then [VDict pm25_config, VDict pm10_config] else [])"
    and d6: "d6 = (if have_pm h then [reading 6 (VInt v25), reading 7 (VInt v10)] else [])"
    and p7: "bits s7 = bits s6" "bitpos s7 = bitpos s6 + (if have_pm h then 32 else 0)"
    by blast
  from read_battery_InrD [OF ba] obtain v4 where
    c4: "c4 = (if have_battery h then [VDict battery_config] else [])"
    and d4: "d4 = (if have_battery h then [reading 4 (VInt v4)] else [])"
    and p8: "bits s8 = bits s7" "bitpos s8 = bitpos s7 + (if have_battery h then 8 else 0)"
    by blast
  from read_extra_InrD [OF ex] obtain exv where
    c8: "c8 = (if have_extra h then [VDict extra_config] else [])"
    and d8: "d8 = (if have_extra h then [reading 8 (VList (map VInt exv))] else [])"
    and lp: "have_extra h \<longrightarrow> extra_loop s8 [] = Inr (exv, s9)"
    by blast
  have pos: "bits s8 = bits s" "bitpos s8 = bitpos s + fields_bits h"
    using p0 s4 p5 p6 p7 p8 by (simp_all add: fields_bits_def)
  have cfg: "config =
      [VDict (if have_firmware h then dict_set node_config (KStr ''firmware_version'') (VInt fwv)
              else node_config),
       VDict position_config, VDict temperature_config, VDict humidity_config]
      @ (if have_supply h then [VDict vcc_config] else [])
      @ (if have_lux h then [VDict lc] else [])
      @ (if have_pm h then [VDict pm25_config, VDict pm10_config] else [])
      @ (if have_battery h then [VDict battery_config] else [])
      @ (if have_extra h then [VDict extra_config] else [])"
    unfolding config nc c3 c5 c6 c4 c8 by simp
  have dat: "data =
      [reading 0 (VList [VInt lat, VInt lon]), reading 1 (VInt t), reading 2 (VInt hu)]
      @ (if have_supply h then [reading 3 (VInt v3)] else [])
      @ (if have_lux h then [reading 5 (VInt v5)] else [])
      @ (if have_pm h then [reading 6 (VInt v25), reading 7 (VInt v10)] else [])
      @ (if have_battery h then [reading 4 (VInt v4)] else [])
      @ (if have_extra h then [reading 8 (VList (map VInt exv))] else [])"
    unfolding data d3 d5 d6 d4 d8 by simp
  from cfg dat pos lp show ?thesis
    by blast
qed

lemma length_ConstBitStream: "length (bits (ConstBitStream payload)) = 8 * length payload"
  by (induction payload) (simp_all add: ConstBitStream_def byte_bits_def)

lemma bitpos_ConstBitStream [simp]: "bitpos (ConstBitStream payload) = 0"
  by (simp add: ConstBitStream_def)

lemma select_layout_13:
  assumes "select_layout (JInt 13) len (ConstBitStream payload) = Inr (Some (h, lc, s))"
  shows "payload \<noteq> []
    \<and> h = \<lparr>have_supply = True, have_battery = bit (hd payload) 5, have_firmware = True,
           have_lux = bit (hd payload) 7, have_pm = bit (hd payload) 6,
           have_extra = bit (hd payload) 0\<rparr>
    \<and> lc = dict_set lux_config (KStr ''divider'') (VInt 4)
    \<and> bits s = bits (ConstBitStream payload) \<and> bitpos s = 8"
proof (cases payload)
  case Nil
  with assms show ?thesis
    by (simp add: select_layout_def ConstBitStream_def read_bool_def read_bits_def)
next
  case (Cons b rest)
  with assms show ?thesis
    by (auto simp add: select_layout_def ConstBitStream_def byte_bits_def read_bool_def
        read_uint_def read_bits_def no_presence_def)
qed

lemma select_layout_12:
  assumes "len \<in> {13, 14, 17, 18}"
  shows "select_layout (JInt 12) len s =
     Inr (Some (\<lparr>have_supply = True, have_battery = (len = 14 \<or> len = 18),
                 have_firmware = True, have_lux = True, have_pm = (len = 17 \<or> len = 18),
                 have_extra = False\<rparr>, lux_config, s))"
  using assms by (auto simp add: select_layout_def no_presence_def)

lemma process_data_decode_InrD:
  assumes "dict_get msg_obj ''port'' = Inr port"
    and "process_data_decode msg_obj payload = Inr (Some (config, data))"
  shows "\<exists>h lc s. select_layout port (length payload) (ConstBitStream payload) = Inr (Some (h, lc, s))
           \<and> read_fields h lc s = Inr (config, data)"
  using assms
  by (auto simp: process_data_decode_def then_do_eq_Inr split: option.splits)

lemma process_data_decode_SomeD:
  assumes "process_data_decode msg_obj payload = Inr (Some (config, data))"
  shows "\<exists>port h lc s. dict_get msg_obj ''port'' = Inr port
           \<and> select_layout port (length payload) (ConstBitStream payload) = Inr (Some (h, lc, s))
           \<and> read_fields h lc s = Inr (config, data)"
  using assms
  by (auto simp: process_data_decode_def then_do_eq_Inr split: option.splits)

lemma decoded_config_fixed:
  assumes "process_data_decode msg_obj payload = Inr (Some (config, data))"
  shows "\<exists>node_cfg rest. config =
     [VDict node_cfg, VDict position_config, VDict temperature_config, VDict humidity_config]
     @ rest"
proof -
  from process_data_decode_SomeD [OF assms] obtain h lc s where
    "read_fields h lc s = Inr (config, data)"
    by blast
  from read_fields_InrD [OF this] show ?thesis
    by blast
qed

subsection \<open>Enough bits make the decode succeed\<close>

lemma read_firmware_total:
  assumes "bitpos s + (if have_firmware h then 8 else 0) \<le> length (bits s)"
  shows "\<exists>c s'. read_firmware h s = Inr (c, s') \<and> bits s' = bits s
           \<and> bitpos s' = bitpos s + (if have_firmware h then 8 else 0)"
  using assms by (cases "have_firmware h") (simp_all add: read_firmware_def read_uint_enough)

lemma read_supply_total:
  assumes "bitpos s + (if have_supply h then 8 else 0) \<le> length (bits s)"
  shows "\<exists>c d s'. read_supply h s = Inr (c, d, s') \<and> bits s' = bits s
           \<and> bitpos s' = bitpos s + (if have_supply h then 8 else 0)"
  using assms by (cases "have_supply h") (simp_all add: read_supply_def read_uint_enough)

lemma read_lux_total:
  assumes "bitpos s + (if have_lux h then 16 else 0) \<le> length (bits s)"
  shows "\<exists>c d s'. read_lux h lc s = Inr (c, d, s') \<and> bits s' = bits s
           \<and> bitpos s' = bitpos s + (if have_lux h then 16 else 0)"
  using assms by (cases "have_lux h") (simp_all add: read_lux_def read_uint_enough)

lemma read_pm_total:
  assumes "bitpos s + (if have_pm h then 32 else 0) \<le> length (bits s)"
  shows "\<exists>c d s'. read_pm h s = Inr (c, d, s') \<and> bits s' = bits s
           \<and> bitpos s' = bitpos s + (if have_pm h then 32 else 0)"
  using assms by (cases "have_pm h") (simp_all add: read_pm_def read_uint_enough)

lemma read_battery_total:
  assumes "bitpos s + (if have_battery h then 8 else 0) \<le> length (bits s)"
  shows "\<exists>c d s'. read_battery h s = Inr (c, d, s') \<and> bits s' = bits s
           \<and> bitpos s' = bitpos s + (if have_battery h then 8 else 0)"
  using assms by (cases "have_battery h") (simp_all add: read_battery_def read_uint_enough)

lemma read_extra_total: "\<exists>c d s'. read_extra h s = Inr (c, d, s')"
proof (cases "have_extra h")
  case True
  obtain ex s' where "extra_loop s [] = Inr (ex, s')"
    using extra_loop_total [of s "[]"] by auto
  with True show ?thesis by (simp add: read_extra_def)
next
  case False
  then show ?thesis by (simp add: read_extra_def)
qed

lemma read_int_total:
  assumes "bitpos s + n \<le> length (bits s)"
  shows "\<exists>v s'. read_int s n = Inr (v, s') \<and> bits s' = bits s \<and> bitpos s' = bitpos s + n"
  using assms by (simp add: read_int_enough)

lemma read_fields_total:
  assumes "bitpos s + fields_bits h \<le> length (bits s)"
  shows "\<exists>config data. read_fields h lc s = Inr (config, data)"
proof -
  define w0 :: nat where "w0 = (if have_firmware h then 8 else 0)"
  define w3 :: nat where "w3 = (if have_supply h then 8 else 0)"
  define w5 :: nat where "w5 = (if have_lux h then 16 else 0)"
  define w6 :: nat where "w6 = (if have_pm h then 32 else 0)"
  define w4 :: nat where "w4 = (if have_battery h then 8 else 0)"
  have tot: "bitpos s + w0 + 72 + w3 + w5 + w6 + w4 \<le> length (bits s)"
    using assms by (simp add: fields_bits_def w0_def w3_def w5_def w6_def w4_def)
  obtain c0 s0 where f0: "read_firmware h s = Inr (c0, s0)"
    and p0: "bits s0 = bits s" "bitpos s0 = bitpos s + w0"
    using read_firmware_total [of s h] tot unfolding w0_def by auto
  obtain lat s1 where f1: "read_int s0 24 = Inr (lat, s1)"
    and p1: "bits s1 = bits s" "bitpos s1 = bitpos s + w0 + 24"
    using read_int_total [of s0 24] tot p0 by auto
  obtain lon s2 where f2: "read_int s1 24 = Inr (lon, s2)"
    and p2: "bits s2 = bits s" "bitpos s2 = bitpos s + w0 + 48"
    using read_int_total [of s1 24] tot p1 by auto
  obtain t s3 where f3: "read_int s2 12 = Inr (t, s3)"
    and p3: "bits s3 = bits s" "bitpos s3 = bitpos s + w0 + 60"
    using read_int_total [of s2 12] tot p2 by auto
  obtain hu s4 where f4: "read_int s3 12 = Inr (hu, s4)"
    and p4: "bits s4 = bits s" "bitpos s4 = bitpos s + w0 + 72"
    using read_int_total [of s3 12] tot p3 by auto
  obtain c3 d3 s5 where f5: "read_supply h s4 = Inr (c3, d3, s5)"
    and p5: "bits s5 = bits s" "bitpos s5 = bitpos s + w0 + 72 + w3"
    using read_supply_total [of s4 h] tot p4 unfolding w3_def by auto
  obtain c5 d5 s6 where f6: "read_lux h lc s5 = Inr (c5, d5, s6)"
    and p6: "bits s6 = bits s" "bitpos s6 = bitpos s + w0 + 72 + w3 + w5"
    using read_lux_total [of s5 h lc] tot p5 unfolding w5_def by auto
  obtain c6 d6 s7 where f7: "read_pm h s6 = Inr (c6, d6, s7)"
    and p7: "bits s7 = bits s" "bitpos s7 = bitpos s + w0 + 72 + w3 + w5 + w6"
    using read_pm_total [of s6 h] tot p6 unfolding w6_def by auto
  obtain c4 d4 s8 where f8: "read_battery h s7 = Inr (c4, d4, s8)"
    using read_battery_total [of s7 h] tot p7 unfolding w4_def by auto
  obtain c8 d8 s9 where f9: "read_extra h s8 = Inr (c8, d8, s9)"
    using read_extra_total [of h s8] by auto
  show ?thesis
    by (simp add: read_fields_def f0 f1 f2 f3 f4 f5 f6 f7 f8 f9)
qed

lemma select_layout_13_total:
  assumes "payload \<noteq> []"
  shows "select_layout (JInt 13) len (ConstBitStream payload) =
     Inr (Some (\<lparr>have_supply = True, have_battery = bit (hd payload) 5, have_firmware = True,
                 have_lux = bit (hd payload) 7, have_pm = bit (hd payload) 6,
                 have_extra = bit (hd payload) 0\<rparr>,
                dict_set lux_config (KStr ''divider'') (VInt 4),
                (ConstBitStream payload)\<lparr>bitpos := 8\<rparr>))"
proof (cases payload)
  case Nil
  with assms show ?thesis by simp
next
  case (Cons b rest)
  then show ?thesis
    by (simp add: select_layout_def ConstBitStream_def byte_bits_def read_bool_def
        read_uint_def read_bits_def no_presence_def)
qed

lemma port13_decodes:
  assumes "dict_get msg_obj ''port'' = Inr (JInt 13)"
    and "96 + (if bit (hd payload) 7 then 16 else 0) + (if bit (hd payload) 6 then 32 else 0)
         + (if bit (hd payload) 5 then 8 else 0) \<le> 8 * length payload"
  shows "\<exists>config data. process_data_decode msg_obj payload = Inr (Some (config, data))"
proof -
  define h where "h = \<lparr>have_supply = True, have_battery = bit (hd payload) 5,
      have_firmware = True, have_lux = bit (hd payload) 7, have_pm = bit (hd payload) 6,
      have_extra = bit (hd payload) 0\<rparr>"
  define s where "s = (ConstBitStream payload)\<lparr>bitpos := 8\<rparr>"
  from assms(2) have ne: "payload \<noteq> []"
    by auto
  have sel: "select_layout (JInt 13) (length payload) (ConstBitStream payload) =
      Inr (Some (h, dict_set lux_config (KStr ''divider'') (VInt 4), s))"
    unfolding h_def s_def by (rule select_layout_13_total [OF ne])
  have "bitpos s + fields_bits h \<le> length (bits s)"
    using assms(2) by (simp add: s_def h_def fields_bits_def length_ConstBitStream)
  from read_fields_total [OF this] obtain config data where
    "read_fields h (dict_set lux_config (KStr ''divider'') (VInt 4)) s = Inr (config, data)"
    by blast
  with assms(1) sel show ?thesis
    by (simp add: process_data_decode_def)
qed

subsection \<open>The example payloads\<close>

lemmas decode_eval =
  process_data_decode_def select_layout_def ConstBitStream_def byte_bits_def
  read_fields_def no_presence_def read_int_def read_uint_def read_bool_def read_bits_def
  bits_int_def bits_uint_def read_firmware_def read_supply_def read_lux_def read_pm_def
  read_battery_def read_extra_def remaining_def

lemma flags_payload_decode:
  "process_data_decode (example_msg 13) flags_payload =
     Inr (Some ([VDict (dict_set node_config (KStr ''firmware_version'') (VInt 7)),
                 VDict position_config, VDict temperature_config, VDict humidity_config,
                 VDict vcc_config, VDict (dict_set lux_config (KStr ''divider'') (VInt 4)),
                 VDict battery_config, VDict extra_config],
                [reading 0 (VList [VInt 1, VInt (- 1)]), reading 1 (VInt 100),
                 reading 2 (VInt 400), reading 3 (VInt 33), reading 5 (VInt 256),
                 reading 4 (VInt 25), reading 8 (VList [VInt 11])]))"
  by (simp add: decode_eval example_msg_fields flags_payload_def extra_loop.simps)

lemma no_extras_payload_decode:
  "process_data_decode (example_msg 13) no_extras_payload =
     Inr (Some ([VDict (dict_set node_config (KStr ''firmware_version'') (VInt 7)),
                 VDict position_config, VDict temperature_config, VDict humidity_config,
                 VDict vcc_config, VDict extra_config],
                [reading 0 (VList [VInt 1, VInt (- 1)]), reading 1 (VInt 100),
                 reading 2 (VInt 400), reading 3 (VInt 33), reading 8 (VList [])]))"
  by (simp add: decode_eval example_msg_fields no_extras_payload_def extra_loop.simps)

lemma padded_no_extras_payload_decode:
  "process_data_decode (example_msg 13) (no_extras_payload @ [0xFF]) =
     Inr (Some ([VDict (dict_set node_config (KStr ''firmware_version'') (VInt 7)),
                 VDict position_config, VDict temperature_config, VDict humidity_config,
                 VDict vcc_config, VDict extra_config],
                [reading 0 (VList [VInt 1, VInt (- 1)]), reading 1 (VInt 100),
                 reading 2 (VInt 400), reading 3 (VInt 33), reading 8 (VList [])]))"
  by (simp add: decode_eval example_msg_fields no_extras_payload_def extra_loop.simps)

lemma lux_payload_decode:
  "process_data_decode (example_msg 12) lux_payload =
     Inr (Some ([VDict (dict_set node_config (KStr ''firmware_version'') (VInt 7)),
                 VDict position_config, VDict temperature_config, VDict humidity_config,
                 VDict vcc_config, VDict lux_config],
                [reading 0 (VList [VInt 1, VInt (- 1)]), reading 1 (VInt 100),
                 reading 2 (VInt 400), reading 3 (VInt 33), reading 5 (VInt 256)]))"
  by (simp add: decode_eval example_msg_fields lux_payload_def)

lemma to_bits_5_sizes:
  "to_bits 5 3 = [False, False, False, True, True]"
  "to_bits 5 10 = [False, True, False, True, False]"
  by code_simp+

section \<open>Claims\<close>

text \<open>
  C1. A packet that decodes, from an envelope with the fields of a node identity and a
  counter that the tracker can compare, yields its messages in this order: the
  configuration message when the tracker asks for one, then exactly one data message.
  Nothing else is emitted.
\<close>

theorem process_data_emits:
  assumes "process_data_decode msg_obj payload = Inr (Some (config, data))"
    and "make_ttn_node_id msg_obj = Inr n"
    and "dict_get msg_obj ''counter'' = Inr c"
    and "generate_config st n c = Inr (gen, st')"
  shows "process_data L st msg_obj payload =
     Inr (st', (if gen then [snd (produce_message L msg_obj (VList (map encode config)) CONFIG_PORT)]
                else [])
               @ [snd (produce_message L msg_obj (VList data) DATA_PORT)])"
  using assms by (rule process_data_after_decode)

theorem process_data_emits_witness:
  "process_data example_libs [''ttn/a/d'' \<mapsto> JInt 5] (example_msg 10) scenario_payload =
     Inr ([''ttn/a/d'' \<mapsto> JInt 5], [[50]])
   \<and> process_data example_libs [''ttn/a/d'' \<mapsto> JInt 6] (example_msg 10) scenario_payload =
     Inr ([''ttn/a/d'' \<mapsto> JInt 5], [[49], [50]])"
proof -
  have d: "process_data_decode (example_msg 10) scenario_payload =
     Inr (Some ([VDict node_config, VDict position_config, VDict temperature_config,
                 VDict humidity_config],
                [reading 0 (VList [VInt 1, VInt (- 1)]), reading 1 (VInt 100),
                 reading 2 (VInt 400)]))"
    by (rule scenario_decode [OF example_msg_fields(1)]) simp
  have g1: "generate_config [''ttn/a/d'' \<mapsto> JInt 5] ''ttn/a/d'' (JInt 5) =
      Inr (False, [''ttn/a/d'' \<mapsto> JInt 5])"
    by (simp add: generate_config_def)
  have g2: "generate_config [''ttn/a/d'' \<mapsto> JInt 6] ''ttn/a/d'' (JInt 5) =
      Inr (True, [''ttn/a/d'' \<mapsto> JInt 5])"
    by (simp add: generate_config_def)
  show ?thesis
    using process_data_emits [OF d example_msg_fields(2) example_msg_fields(3) g1, of example_libs]
      process_data_emits [OF d example_msg_fields(2) example_msg_fields(3) g2, of example_libs]
    by (simp add: produce_message_def example_libs_def example_msg_def map_of_dict_set
        CONFIG_PORT_def DATA_PORT_def str_int_def dec_digits.simps digit_char_def)
qed

text \<open>
  C2. The decision is True when no counter is recorded for the node, and otherwise
  exactly when the new counter is below the recorded one; either way the recorded
  counter becomes the new one. \<^verbatim>\<open>process_data\<close> applies this to every packet that
  decodes: it yields two messages when the decision is True and one otherwise.
\<close>

theorem generate_config_policy:
  "generate_config (st(n := None)) n (JInt c) = Inr (True, st(n \<mapsto> JInt c))
   \<and> generate_config (st(n \<mapsto> JInt p)) n (JInt c) = Inr (c < p, st(n \<mapsto> JInt c))
   \<and> (process_data_decode msg_obj payload = Inr (Some (config, data))
        \<and> make_ttn_node_id msg_obj = Inr n \<and> dict_get msg_obj ''counter'' = Inr (JInt c)
      \<longrightarrow> (\<exists>outs. process_data L (st(n := None)) msg_obj payload = Inr (st(n \<mapsto> JInt c), outs)
                   \<and> length outs = 2)
        \<and> (\<exists>outs. process_data L (st(n \<mapsto> JInt p)) msg_obj payload =
                     Inr (st(n \<mapsto> JInt c), outs)
                   \<and> length outs = (if c < p then 2 else 1)))"
proof (intro conjI impI)
  show g1: "generate_config (st(n := None)) n (JInt c) = Inr (True, st(n \<mapsto> JInt c))"
    by (simp add: generate_config_def)
  show g2: "generate_config (st(n \<mapsto> JInt p)) n (JInt c) = Inr (c < p, st(n \<mapsto> JInt c))"
    by (simp add: generate_config_def)
  assume a: "process_data_decode msg_obj payload = Inr (Some (config, data))
        \<and> make_ttn_node_id msg_obj = Inr n \<and> dict_get msg_obj ''counter'' = Inr (JInt c)"
  show "\<exists>outs. process_data L (st(n := None)) msg_obj payload = Inr (st(n \<mapsto> JInt c), outs)
                   \<and> length outs = 2"
    using a process_data_after_decode [OF _ _ _ g1, of msg_obj payload config data L] by simp
  show "\<exists>outs. process_data L (st(n \<mapsto> JInt p)) msg_obj payload = Inr (st(n \<mapsto> JInt c), outs)
                   \<and> length outs = (if c < p then 2 else 1)"
    using a process_data_after_decode [OF _ _ _ g2, of msg_obj payload config data L] by simp
qed

theorem generate_config_policy_witness:
  "generate_config (Map.empty(''ttn/a/d'' \<mapsto> JInt 50)) ''ttn/a/d'' (JInt 5) =
     Inr (True, Map.empty(''ttn/a/d'' \<mapsto> JInt 5))
   \<and> generate_config (Map.empty(''ttn/a/d'' \<mapsto> JInt 5)) ''ttn/a/d'' (JInt 5) =
     Inr (False, Map.empty(''ttn/a/d'' \<mapsto> JInt 5))
   \<and> (\<exists>outs. process_data example_libs (Map.empty(''ttn/a/d'' := None)) (example_msg 10)
                scenario_payload = Inr (Map.empty(''ttn/a/d'' \<mapsto> JInt 5), outs)
              \<and> length outs = 2)
   \<and> (\<exists>outs. process_data example_libs (Map.empty(''ttn/a/d'' \<mapsto> JInt 50)) (example_msg 10)
                scenario_payload = Inr (Map.empty(''ttn/a/d'' \<mapsto> JInt 5), outs)
              \<and> length outs = 2)
   \<and> (\<exists>outs. process_data example_libs (Map.empty(''ttn/a/d'' \<mapsto> JInt 5)) (example_msg 10)
                scenario_payload = Inr (Map.empty(''ttn/a/d'' \<mapsto> JInt 5), outs)
              \<and> length outs = 1)"
proof -
  have d: "process_data_decode (example_msg 10) scenario_payload =
     Inr (Some ([VDict node_config, VDict position_config, VDict temperature_config,
                 VDict humidity_config],
                [reading 0 (VList [VInt 1, VInt (- 1)]), reading 1 (VInt 100),
                 reading 2 (VInt 400)]))"
    by (rule scenario_decode [OF example_msg_fields(1)]) simp
  note h = d example_msg_fields(2) [of 10] example_msg_fields(3) [of 10]
  show ?thesis
    using h
      generate_config_policy [of Map.empty "''ttn/a/d''" 5 50 "example_msg 10" scenario_payload
        _ _ example_libs]
      generate_config_policy [of Map.empty "''ttn/a/d''" 5 5 "example_msg 10" scenario_payload
        _ _ example_libs]
    by simp
qed

text \<open>
  C3. An envelope whose port is none of 10, 11, 12 and 13, or whose port is 10, 11 or 12
  with a payload length that is not listed for that port, yields no message and leaves
  the counters as they were.
\<close>

theorem process_data_dropped:
  assumes "dict_get msg_obj ''port'' = Inr port"
    and "(\<not> py_eq_int port 10 \<and> \<not> py_eq_int port 11 \<and> \<not> py_eq_int port 12
          \<and> \<not> py_eq_int port 13)
       \<or> (py_eq_int port 10 \<and> length payload \<notin> {9, 10, 11})
       \<or> (py_eq_int port 11 \<and> length payload \<notin> {11, 12, 15, 16})
       \<or> (py_eq_int port 12 \<and> length payload \<notin> {13, 14, 17, 18})"
  shows "process_data L st msg_obj payload = Inr (st, [])"
  using assms
  by (cases port)
    (auto simp add: process_data_def process_data_decode_def select_layout_def Let_def)

theorem process_data_dropped_witness:
  "process_data example_libs [''ttn/a/d'' \<mapsto> JInt 7] (example_msg 14) scenario_payload =
     Inr ([''ttn/a/d'' \<mapsto> JInt 7], [])
   \<and> process_data example_libs [''ttn/a/d'' \<mapsto> JInt 7] (example_msg 12) scenario_payload =
     Inr ([''ttn/a/d'' \<mapsto> JInt 7], [])"
proof -
  have l: "length scenario_payload = 9"
    by (simp add: scenario_payload_def)
  show ?thesis
    using process_data_dropped [OF example_msg_fields(1) [of 14], of scenario_payload
        example_libs "[''ttn/a/d'' \<mapsto> JInt 7]"]
      process_data_dropped [OF example_msg_fields(1) [of 12], of scenario_payload
        example_libs "[''ttn/a/d'' \<mapsto> JInt 7]"]
    by (simp add: l)
qed

text \<open>
  C4. A port-13 payload that is long enough for the fields its flags select decodes. On
  port 13 the first byte of the payload decides the optional fields: its bit 7
  (the first bit of the stream) the ambient light, bit 6 the two particulate-matter
  channels, bit 5 the battery, and, after four unused bits, bit 0 the extra values. The
  descriptors and readings of a decoded packet are exactly the fixed ones (node with
  firmware version, position, temperature, humidity, supply voltage) followed by those
  that the flags select, in this order, and the ambient-light descriptor (channel 5)
  carries divider 4.
\<close>

theorem port13_flags:
  assumes "dict_get msg_obj ''port'' = Inr (JInt 13)"
  shows "(96 + (if bit (hd payload) 7 then 16 else 0) + (if bit (hd payload) 6 then 32 else 0)
          + (if bit (hd payload) 5 then 8 else 0) \<le> 8 * length payload
        \<longrightarrow> (\<exists>config data. process_data_decode msg_obj payload = Inr (Some (config, data))))
    \<and> (process_data_decode msg_obj payload = Inr (Some (config, data)) \<longrightarrow>
        payload \<noteq> []
        \<and> (\<exists>fw lat lon t hu v3 v5 v25 v10 v4 ex.
        config =
          [VDict (dict_set node_config (KStr ''firmware_version'') (VInt fw)),
           VDict position_config, VDict temperature_config, VDict humidity_config,
           VDict vcc_config]
          @ (if bit (hd payload) 7
             then [VDict (dict_set lux_config (KStr ''divider'') (VInt 4))] else [])
          @ (if bit (hd payload) 6 then [VDict pm25_config, VDict pm10_config] else [])
          @ (if bit (hd payload) 5 then [VDict battery_config] else [])
          @ (if bit (hd payload) 0 then [VDict extra_config] else [])
        \<and> data =
          [reading 0 (VList [VInt lat, VInt lon]), reading 1 (VInt t), reading 2 (VInt hu),
           reading 3 (VInt v3)]
          @ (if bit (hd payload) 7 then [reading 5 (VInt v5)] else [])
          @ (if bit (hd payload) 6 then [reading 6 (VInt v25), reading 7 (VInt v10)] else [])
          @ (if bit (hd payload) 5 then [reading 4 (VInt v4)] else [])
          @ (if bit (hd payload) 0 then [reading 8 (VList (map VInt ex))] else [])))
    \<and> descriptor_field (VDict (dict_set lux_config (KStr ''divider'') (VInt 4))) ''channel_id''
        = Some (VInt 5)
    \<and> descriptor_field (VDict (dict_set lux_config (KStr ''divider'') (VInt 4))) ''divider''
        = Some (VInt 4)"
proof -
  have tot: "\<exists>config data. process_data_decode msg_obj payload = Inr (Some (config, data))"
    if "96 + (if bit (hd payload) 7 then 16 else 0) + (if bit (hd payload) 6 then 32 else 0)
          + (if bit (hd payload) 5 then 8 else 0) \<le> 8 * length payload"
    using assms that by (rule port13_decodes)
  have dec: "payload \<noteq> []
        \<and> (\<exists>fw lat lon t hu v3 v5 v25 v10 v4 ex.
        config =
          [VDict (dict_set node_config (KStr ''firmware_version'') (VInt fw)),
           VDict position_config, VDict temperature_config, VDict humidity_config,
           VDict vcc_config]
          @ (if bit (hd payload) 7
             then [VDict (dict_set lux_config (KStr ''divider'') (VInt 4))] else [])
          @ (if bit (hd payload) 6 then [VDict pm25_config, VDict pm10_config] else [])
          @ (if bit (hd payload) 5 then [VDict battery_config] else [])
          @ (if bit (hd payload) 0 then [VDict extra_config] else [])
        \<and> data =
          [reading 0 (VList [VInt lat, VInt lon]), reading 1 (VInt t), reading 2 (VInt hu),
           reading 3 (VInt v3)]
          @ (if bit (hd payload) 7 then [reading 5 (VInt v5)] else [])
          @ (if bit (hd payload) 6 then [reading 6 (VInt v25), reading 7 (VInt v10)] else [])
          @ (if bit (hd payload) 5 then [reading 4 (VInt v4)] else [])
          @ (if bit (hd payload) 0 then [reading 8 (VList (map VInt ex))] else []))"
    if decoded: "process_data_decode msg_obj payload = Inr (Some (config, data))"
  proof -
    from process_data_decode_InrD [OF assms decoded] obtain h lc s where
      sel: "select_layout (JInt 13) (length payload) (ConstBitStream payload) = Inr (Some (h, lc, s))"
      and rf: "read_fields h lc s = Inr (config, data)"
      by blast
    from select_layout_13 [OF sel] have ne: "payload \<noteq> []"
      and h: "h = \<lparr>have_supply = True, have_battery = bit (hd payload) 5, have_firmware = True,
             have_lux = bit (hd payload) 7, have_pm = bit (hd payload) 6,
             have_extra = bit (hd payload) 0\<rparr>"
      and lc: "lc = dict_set lux_config (KStr ''divider'') (VInt 4)"
      by simp_all
    from read_fields_InrD [OF rf] obtain fw lat lon t hu v3 v5 v25 v10 v4 ex where
      "config =
        [VDict (if have_firmware h then dict_set node_config (KStr ''firmware_version'') (VInt fw)
                else node_config),
         VDict position_config, VDict temperature_config, VDict humidity_config]
        @ (if have_supply h then [VDict vcc_config] else [])
        @ (if have_lux h then [VDict lc] else [])
        @ (if have_pm h then [VDict pm25_config, VDict pm10_config] else [])
        @ (if have_battery h then [VDict battery_config] else [])
        @ (if have_extra h then [VDict extra_config] else [])"
      and "data =
        [reading 0 (VList [VInt lat, VInt lon]), reading 1 (VInt t), reading 2 (VInt hu)]
        @ (if have_supply h then [reading 3 (VInt v3)] else [])
        @ (if have_lux h then [reading 5 (VInt v5)] else [])
        @ (if have_pm h then [reading 6 (VInt v25), reading 7 (VInt v10)] else [])
        @ (if have_battery h then [reading 4 (VInt v4)] else [])
        @ (if have_extra h then [reading 8 (VList (map VInt ex))] else [])"
      by blast
    then have shape: "\<exists>fw lat lon t hu v3 v5 v25 v10 v4 ex.
          config =
            [VDict (dict_set node_config (KStr ''firmware_version'') (VInt fw)),
             VDict position_config, VDict temperature_config, VDict humidity_config,
             VDict vcc_config]
            @ (if bit (hd payload) 7
               then [VDict (dict_set lux_config (KStr ''divider'') (VInt 4))] else [])
            @ (if bit (hd payload) 6 then [VDict pm25_config, VDict pm10_config] else [])
            @ (if bit (hd payload) 5 then [VDict battery_config] else [])
            @ (if bit (hd payload) 0 then [VDict extra_config] else [])
          \<and> data =
            [reading 0 (VList [VInt lat, VInt lon]), reading 1 (VInt t), reading 2 (VInt hu),
             reading 3 (VInt v3)]
            @ (if bit (hd payload) 7 then [reading 5 (VInt v5)] else [])
            @ (if bit (hd payload) 6 then [reading 6 (VInt v25), reading 7 (VInt v10)] else [])
            @ (if bit (hd payload) 5 then [reading 4 (VInt v4)] else [])
            @ (if bit (hd payload) 0 then [reading 8 (VList (map VInt ex))] else [])"
      unfolding h lc by simp blast
    with ne show ?thesis
      by blast
  qed
  have "descriptor_field (VDict (dict_set lux_config (KStr ''divider'') (VInt 4))) ''channel_id''
        = Some (VInt 5)"
    and "descriptor_field (VDict (dict_set lux_config (KStr ''divider'') (VInt 4))) ''divider''
        = Some (VInt 4)"
    by (simp_all add: descriptor_field_def lux_config_def)
  with tot dec show ?thesis
    by blast
qed

theorem port13_flags_witness:
  "dict_get (example_msg 13) ''port'' = Inr (JInt 13)
   \<and> process_data_decode (example_msg 13) flags_payload =
     Inr (Some ([VDict (dict_set node_config (KStr ''firmware_version'') (VInt 7)),
                 VDict position_config, VDict temperature_config, VDict humidity_config,
                 VDict vcc_config, VDict (dict_set lux_config (KStr ''divider'') (VInt 4)),
                 VDict battery_config, VDict extra_config],
                [reading 0 (VList [VInt 1, VInt (- 1)]), reading 1 (VInt 100),
                 reading 2 (VInt 400), reading 3 (VInt 33), reading 5 (VInt 256),
                 reading 4 (VInt 25), reading 8 (VList [VInt 11])]))
   \<and> flags_payload \<noteq> []
   \<and> (bit (hd flags_payload) 7, bit (hd flags_payload) 6, bit (hd flags_payload) 5,
      bit (hd flags_payload) 0) = (True, False, True, True)"
proof -
  have f: "(bit (hd flags_payload) 7, bit (hd flags_payload) 6, bit (hd flags_payload) 5,
      bit (hd flags_payload) 0) = (True, False, True, True)"
    by (simp add: flags_payload_def)
  from port13_flags [OF example_msg_fields(1), of flags_payload] flags_payload_decode
  have "flags_payload \<noteq> []"
    by blast
  with f flags_payload_decode example_msg_fields(1) [of 13] show ?thesis
    by (intro conjI)
qed

text \<open>
  C5. Every port-12 packet of length 13, 14, 17 or 18 decodes, and its only descriptor
  for channel 5 is the ambient-light descriptor with the four fields item type, channel
  id, quantity and unit: it has no divider field. (The divider, with value 4, is added
  on port 13 only.)
\<close>

theorem port12_lux_descriptor:
  assumes "dict_get msg_obj ''port'' = Inr (JInt 12)"
    and "length payload \<in> {13, 14, 17, 18}"
  shows "\<exists>config data. process_data_decode msg_obj payload = Inr (Some (config, data))
     \<and> channel_descriptors 5 config =
         [VDict [(KStr ''item_type'', VStr ''channel''), (KStr ''channel_id'', VInt 5),
                 (KStr ''quantity'', VStr ''ambient_light''), (KStr ''unit'', VStr ''lux'')]]
     \<and> map (\<lambda>d. descriptor_field d ''divider'') (channel_descriptors 5 config) = [None]"
proof -
  define h where "h = \<lparr>have_supply = True, have_battery = (length payload = 14 \<or> length payload = 18),
                 have_firmware = True, have_lux = True,
                 have_pm = (length payload = 17 \<or> length payload = 18),
                 have_extra = False\<rparr>"
  have sel: "select_layout (JInt 12) (length payload) (ConstBitStream payload) =
      Inr (Some (h, lux_config, ConstBitStream payload))"
    unfolding h_def by (rule select_layout_12 [OF assms(2)])
  have "bitpos (ConstBitStream payload) + fields_bits h \<le> length (bits (ConstBitStream payload))"
    using assms(2) by (auto simp: h_def fields_bits_def length_ConstBitStream)
  from read_fields_total [OF this] obtain config data where
    rf: "read_fields h lux_config (ConstBitStream payload) = Inr (config, data)"
    by blast
  have dec: "process_data_decode msg_obj payload = Inr (Some (config, data))"
    using assms(1) sel rf by (simp add: process_data_decode_def)
  from read_fields_InrD [OF rf] obtain fw where
    config: "config =
      [VDict (if have_firmware h then dict_set node_config (KStr ''firmware_version'') (VInt fw)
              else node_config),
       VDict position_config, VDict temperature_config, VDict humidity_config]
      @ (if have_supply h then [VDict vcc_config] else [])
      @ (if have_lux h then [VDict lux_config] else [])
      @ (if have_pm h then [VDict pm25_config, VDict pm10_config] else [])
      @ (if have_battery h then [VDict battery_config] else [])
      @ (if have_extra h then [VDict extra_config] else [])"
    by blast
  have cd: "channel_descriptors 5 config = [VDict lux_config]"
    unfolding config
    by (simp add: h_def channel_descriptors_def descriptor_field_def node_config_def
        position_config_def temperature_config_def humidity_config_def vcc_config_def
        lux_config_def pm25_config_def pm10_config_def battery_config_def)
  have "descriptor_field (VDict lux_config) ''divider'' = None"
    by (simp add: descriptor_field_def lux_config_def)
  with dec cd show ?thesis
    by (simp add: lux_config_def)
qed

theorem port12_lux_descriptor_witness:
  "dict_get (example_msg 12) ''port'' = Inr (JInt 12)
   \<and> length lux_payload \<in> {13, 14, 17, 18}
   \<and> (\<exists>config data. process_data_decode (example_msg 12) lux_payload = Inr (Some (config, data))
     \<and> channel_descriptors 5 config =
         [VDict [(KStr ''item_type'', VStr ''channel''), (KStr ''channel_id'', VInt 5),
                 (KStr ''quantity'', VStr ''ambient_light''), (KStr ''unit'', VStr ''lux'')]]
     \<and> map (\<lambda>d. descriptor_field d ''divider'') (channel_descriptors 5 config) = [None])"
proof -
  have l: "length lux_payload \<in> {13, 14, 17, 18}"
    by (simp add: lux_payload_def)
  show ?thesis
    by (intro conjI example_msg_fields(1) l port12_lux_descriptor [OF example_msg_fields(1) l])
qed

text \<open>
  The specification gives the channel-5 descriptor of a port-12 packet the divider 1.
  On a 13-byte packet the descriptor that the code emits has no divider at all.
\<close>

theorem port12_lux_divider_counterexample:
  "process_data_decode (example_msg 12) lux_payload =
     Inr (Some ([VDict (dict_set node_config (KStr ''firmware_version'') (VInt 7)),
                 VDict position_config, VDict temperature_config, VDict humidity_config,
                 VDict vcc_config, VDict lux_config],
                [reading 0 (VList [VInt 1, VInt (- 1)]), reading 1 (VInt 100),
                 reading 2 (VInt 400), reading 3 (VInt 33), reading 5 (VInt 256)]))
   \<and> channel_descriptors 5
       [VDict (dict_set node_config (KStr ''firmware_version'') (VInt 7)),
        VDict position_config, VDict temperature_config, VDict humidity_config,
        VDict vcc_config, VDict lux_config] = [VDict lux_config]
   \<and> descriptor_field (VDict lux_config) ''divider'' \<noteq> Some (VInt 1)"
  by (simp add: lux_payload_decode channel_descriptors_def descriptor_field_def node_config_def
      position_config_def temperature_config_def humidity_config_def vcc_config_def
      lux_config_def)

text \<open>
  C6. The loop over the extra values stops without an error, and without reading, when
  fewer than 5 bits are left. On a stream that holds, from the read position, any
  values of 1 to 32 bits, each after its 5-bit size (the length of the value minus
  one), and then fewer than 5 pad bits, it returns exactly these values, in order, and
  stops at the pad. In particular a size 3 with its 4-bit value, then a size 10 with its
  11-bit value, then fewer than 5 pad bits give exactly these two values. The loop never
  raises an error, on any stream.
\<close>

theorem extra_loop_decodes:
  "(length (bits s) < bitpos s + 5 \<longrightarrow> extra_loop s acc = Inr (acc, s))
   \<and> ((\<forall>v \<in> set vs. 1 \<le> length v \<and> length v \<le> 32) \<and> length pad < 5 \<longrightarrow>
        extra_loop \<lparr>bits = pre @ concat (map encode_extra vs) @ pad, bitpos = length pre\<rparr> acc =
          Inr (acc @ map bits_uint vs,
               \<lparr>bits = pre @ concat (map encode_extra vs) @ pad,
                bitpos = length pre + length (concat (map encode_extra vs))\<rparr>))
   \<and> (length v1 = 4 \<and> length v2 = 11 \<and> length pad < 5 \<longrightarrow>
        extra_loop \<lparr>bits = pre @ to_bits 5 3 @ v1 @ to_bits 5 10 @ v2 @ pad, bitpos = length pre\<rparr> [] =
          Inr ([bits_uint v1, bits_uint v2],
               \<lparr>bits = pre @ to_bits 5 3 @ v1 @ to_bits 5 10 @ v2 @ pad,
                bitpos = length pre + 25\<rparr>))
   \<and> (\<exists>r. extra_loop s acc = Inr r)"
proof (intro conjI impI)
  show "extra_loop s acc = Inr (acc, s)" if "length (bits s) < bitpos s + 5"
    using that by (rule extra_loop_stop)
  show "extra_loop \<lparr>bits = pre @ concat (map encode_extra vs) @ pad, bitpos = length pre\<rparr> acc =
          Inr (acc @ map bits_uint vs,
               \<lparr>bits = pre @ concat (map encode_extra vs) @ pad,
                bitpos = length pre + length (concat (map encode_extra vs))\<rparr>)"
    if "(\<forall>v \<in> set vs. 1 \<le> length v \<and> length v \<le> 32) \<and> length pad < 5"
    using that by (intro extra_loop_roundtrip) simp_all
  show "extra_loop \<lparr>bits = pre @ to_bits 5 3 @ v1 @ to_bits 5 10 @ v2 @ pad, bitpos = length pre\<rparr> [] =
          Inr ([bits_uint v1, bits_uint v2],
               \<lparr>bits = pre @ to_bits 5 3 @ v1 @ to_bits 5 10 @ v2 @ pad,
                bitpos = length pre + 25\<rparr>)"
    if a: "length v1 = 4 \<and> length v2 = 11 \<and> length pad < 5"
  proof -
    have "\<forall>v \<in> set [v1, v2]. 1 \<le> length v \<and> length v \<le> 32"
      using a by simp
    from extra_loop_roundtrip [OF this, of pad pre "[]"] a show ?thesis
      by (simp add: encode_extra_def)
  qed
  show "\<exists>r. extra_loop s acc = Inr r"
    by (rule extra_loop_total)
qed

theorem extra_loop_decodes_witness:
  "extra_loop \<lparr>bits = [True, True, True], bitpos = 0\<rparr> [] = Inr ([], \<lparr>bits = [True, True, True], bitpos = 0\<rparr>)
   \<and> extra_loop \<lparr>bits = to_bits 5 3 @ [True, False, True, True] @ to_bits 5 10
                    @ [False, False, False, False, False, False, False, False, False, True, True]
                    @ [True, True, True], bitpos = 0\<rparr> [] =
      Inr ([11, 3],
           \<lparr>bits = to_bits 5 3 @ [True, False, True, True] @ to_bits 5 10
                    @ [False, False, False, False, False, False, False, False, False, True, True]
                    @ [True, True, True], bitpos = 25\<rparr>)"
  using extra_loop_decodes [of "\<lparr>bits = [True, True, True], bitpos = 0\<rparr>" "[]"
      "[[True, False, True, True],
        [False, False, False, False, False, False, False, False, False, True, True]]"
      "[True, True, True]" "[]" "[True, False, True, True]"
      "[False, False, False, False, False, False, False, False, False, True, True]"]
  by (simp add: bits_uint_def)

text \<open>
  The example of the specification gives the size 3 a 5-bit value. The loop reads 4 bits
  after a size of 3, so the fifth bit shifts everything after it: here the tail "size 3,
  value 10110, size 10, value 00000000001" gives the three values 11, 0 and 1.
\<close>

theorem extra_loop_five_bit_value_counterexample:
  "extra_loop \<lparr>bits = to_bits 5 3 @ [True, False, True, True, False] @ to_bits 5 10
                    @ [False, False, False, False, False, False, False, False, False, False, True],
               bitpos = 0\<rparr> [] =
     Inr ([11, 0, 1],
          \<lparr>bits = to_bits 5 3 @ [True, False, True, True, False] @ to_bits 5 10
                    @ [False, False, False, False, False, False, False, False, False, False, True],
           bitpos = 26\<rparr>)"
  by (simp add: to_bits_5_sizes extra_loop.simps read_uint_def read_bits_def bits_uint_def
      remaining_def)

text \<open>
  C7. The nine-byte port-10 payload with position bytes \<open>0x000001\<close> and \<open>0xFFFFFF\<close>,
  temperature 100 and humidity 400 decodes to the readings \<open>[1, -1]\<close> on channel 0, 100 on
  channel 1 and 400 on channel 2, with no supply or battery channel; for a node without
  a recorded counter, \<^verbatim>\<open>process_data\<close> yields the configuration message and then the
  data message.
\<close>

theorem scenario_port10:
  assumes "dict_get msg_obj ''port'' = Inr (JInt 10)"
    and "make_ttn_node_id msg_obj = Inr n"
    and "dict_get msg_obj ''counter'' = Inr c"
    and "st n = None"
  shows "process_data_decode msg_obj scenario_payload =
       Inr (Some ([VDict node_config, VDict position_config, VDict temperature_config,
                   VDict humidity_config],
                  [reading 0 (VList [VInt 1, VInt (- 1)]), reading 1 (VInt 100),
                   reading 2 (VInt 400)]))
     \<and> process_data L st msg_obj scenario_payload =
       Inr (st(n \<mapsto> c),
            [snd (produce_message L msg_obj
                    (VList (map encode [VDict node_config, VDict position_config,
                                        VDict temperature_config, VDict humidity_config]))
                    CONFIG_PORT),
             snd (produce_message L msg_obj
                    (VList [reading 0 (VList [VInt 1, VInt (- 1)]), reading 1 (VInt 100),
                            reading 2 (VInt 400)])
                    DATA_PORT)])"
proof -
  have d: "process_data_decode msg_obj scenario_payload =
       Inr (Some ([VDict node_config, VDict position_config, VDict temperature_config,
                   VDict humidity_config],
                  [reading 0 (VList [VInt 1, VInt (- 1)]), reading 1 (VInt 100),
                   reading 2 (VInt 400)]))"
    by (rule scenario_decode [OF assms(1)]) simp
  have g: "generate_config st n c = Inr (True, st(n \<mapsto> c))"
    using assms(4) by (simp add: generate_config_def)
  show ?thesis
    using d process_data_after_decode [OF d assms(2) assms(3) g, of L] by simp
qed

theorem scenario_port10_witness:
  "process_data_decode (example_msg 10) scenario_payload =
       Inr (Some ([VDict node_config, VDict position_config, VDict temperature_config,
                   VDict humidity_config],
                  [reading 0 (VList [VInt 1, VInt (- 1)]), reading 1 (VInt 100),
                   reading 2 (VInt 400)]))
   \<and> process_data example_libs Map.empty (example_msg 10) scenario_payload =
       Inr ([''ttn/a/d'' \<mapsto> JInt 5], [[49], [50]])"
  using scenario_port10 [OF example_msg_fields(1) example_msg_fields(2) example_msg_fields(3),
      of Map.empty example_libs]
  by (simp add: produce_message_def example_libs_def example_msg_def map_of_dict_set
      CONFIG_PORT_def DATA_PORT_def str_int_def dec_digits.simps digit_char_def)

text \<open>
  C8. The envelope that \<^verbatim>\<open>produce_message\<close> serialises is the inbound envelope with
  \<^verbatim>\<open>port\<close> set to the target port and \<^verbatim>\<open>payload_raw\<close> set to the base64 text of the
  CBOR bytes of the payload; every other field keeps its value. The bytes returned are
  the UTF-8 bytes of the JSON text of that envelope. A second call on the changed
  envelope gives what a call on the inbound envelope gives.
\<close>

theorem produce_message_envelope:
  "map_of (fst (produce_message L msg_obj payload port)) =
     (map_of msg_obj)(''port'' \<mapsto> JInt port,
        ''payload_raw'' \<mapsto> JStr (decode_utf8 L (b64encode L (cbor2_dumps L payload))))
   \<and> snd (produce_message L msg_obj payload port) =
     encode_utf8 L (json_dumps L (fst (produce_message L msg_obj payload port)))
   \<and> produce_message L (fst (produce_message L msg_obj payload port)) payload' port' =
     produce_message L msg_obj payload' port'"
  by (simp add: produce_message_def Let_def map_of_dict_set dict_set_overwrite)

text \<open>
  C9. The compacted temperature descriptor keeps the string \<open>degrees_celsius\<close> as the
  value of its unit field, under the key code 3: the unit table of the catalog has
  \<open>degrees_celcius\<close> and no \<open>degrees_celsius\<close>. The temperature descriptor is the third
  descriptor of every decoded packet, so this is the third element of every compacted
  configuration.
\<close>

theorem encode_temperature_unit:
  "encode (VDict temperature_config) =
     VDict [(KInt 5, VInt 2), (KInt 1, VInt 1), (KInt 2, VInt 1),
            (KInt 3, VStr ''degrees_celsius''), (KInt 7, VInt 16)]
   \<and> dict_get CONFIG_PACKET_VALUES_INVERTED ''unit'' =
       Inr [(''degrees_celcius'', 1), (''percent_rh'', 2), (''volt'', 3),
            (''ug_per_cubic_meter'', 4), (''lux'', 5), (''degrees'', 6)]
   \<and> dict_get CONFIG_PACKET_KEYS_INVERTED ''unit'' = Inr 3
   \<and> (process_data_decode msg_obj payload = Inr (Some (config, data)) \<longrightarrow>
        map encode config ! 2 =
          VDict [(KInt 5, VInt 2), (KInt 1, VInt 1), (KInt 2, VInt 1),
                 (KInt 3, VStr ''degrees_celsius''), (KInt 7, VInt 16)])"
proof -
  have e: "encode (VDict temperature_config) =
     VDict [(KInt 5, VInt 2), (KInt 1, VInt 1), (KInt 2, VInt 1),
            (KInt 3, VStr ''degrees_celsius''), (KInt 7, VInt 16)]"
    by (simp add: encode_def encode_cbor_obj_def encode_item_def temperature_config_def
        CONFIG_PACKET_KEYS_INVERTED_def CONFIG_PACKET_VALUES_INVERTED_def invert_dict_def
        CONFIG_PACKET_KEYS_def CONFIG_PACKET_VALUES_def)
  have u: "dict_get CONFIG_PACKET_VALUES_INVERTED ''unit'' =
       Inr [(''degrees_celcius'', 1), (''percent_rh'', 2), (''volt'', 3),
            (''ug_per_cubic_meter'', 4), (''lux'', 5), (''degrees'', 6)]"
    by (simp add: CONFIG_PACKET_VALUES_INVERTED_def invert_dict_def CONFIG_PACKET_VALUES_def
        dict_get_def)
  have k: "dict_get CONFIG_PACKET_KEYS_INVERTED ''unit'' = Inr 3"
    by (simp add: CONFIG_PACKET_KEYS_INVERTED_def invert_dict_def CONFIG_PACKET_KEYS_def
        dict_get_def)
  have d: "map encode config ! 2 = encode (VDict temperature_config)"
    if "process_data_decode msg_obj payload = Inr (Some (config, data))"
    using decoded_config_fixed [OF that] by auto
  from e u k d show ?thesis
    by simp
qed

theorem encode_temperature_unit_witness:
  "process_data_decode (example_msg 10) scenario_payload =
       Inr (Some ([VDict node_config, VDict position_config, VDict temperature_config,
                   VDict humidity_config],
                  [reading 0 (VList [VInt 1, VInt (- 1)]), reading 1 (VInt 100),
                   reading 2 (VInt 400)]))
   \<and> map encode [VDict node_config, VDict position_config, VDict temperature_config,
                 VDict humidity_config] ! 2 =
     VDict [(KInt 5, VInt 2), (KInt 1, VInt 1), (KInt 2, VInt 1),
            (KInt 3, VStr ''degrees_celsius''), (KInt 7, VInt 16)]"
proof -
  have d: "process_data_decode (example_msg 10) scenario_payload =
       Inr (Some ([VDict node_config, VDict position_config, VDict temperature_config,
                   VDict humidity_config],
                  [reading 0 (VList [VInt 1, VInt (- 1)]), reading 1 (VInt 100),
                   reading 2 (VInt 400)]))"
    by (rule scenario_decode [OF example_msg_fields(1)]) simp
  from encode_temperature_unit [of "example_msg 10" scenario_payload
      "[VDict node_config, VDict position_config, VDict temperature_config,
        VDict humidity_config]"
      "[reading 0 (VList [VInt 1, VInt (- 1)]), reading 1 (VInt 100), reading 2 (VInt 400)]"] d
  show ?thesis
    by blast
qed

text \<open>
  C10. A port-13 packet whose extra flag (bit 0 of the first byte) is set decodes as soon
  as the payload holds the fields that the flags select, whatever follows them. Its
  last descriptor is then the channel-8 descriptor and its last reading is the channel-8
  reading, whose value is exactly the list that the loop over the extra values returns
  from the bit after the selected fields. Whenever that list is empty the reading is
  still there, with the value \<open>[]\<close>; this is so in particular when fewer than 5 bits
  follow the selected fields.
\<close>

theorem port13_extra_appended:
  assumes "dict_get msg_obj ''port'' = Inr (JInt 13)"
    and "bit (hd payload) 0"
  shows "(96 + (if bit (hd payload) 7 then 16 else 0) + (if bit (hd payload) 6 then 32 else 0)
          + (if bit (hd payload) 5 then 8 else 0) \<le> 8 * length payload
        \<longrightarrow> (\<exists>config data. process_data_decode msg_obj payload = Inr (Some (config, data))))
    \<and> (process_data_decode msg_obj payload = Inr (Some (config, data)) \<longrightarrow>
        (\<exists>ex s9.
           extra_loop
             ((ConstBitStream payload)
                \<lparr>bitpos := 96 + (if bit (hd payload) 7 then 16 else 0)
                   + (if bit (hd payload) 6 then 32 else 0)
                   + (if bit (hd payload) 5 then 8 else 0)\<rparr>) [] = Inr (ex, s9)
           \<and> last config = VDict extra_config
           \<and> last data = reading 8 (VList (map VInt ex))
           \<and> (8 * length payload <
                101 + (if bit (hd payload) 7 then 16 else 0)
                + (if bit (hd payload) 6 then 32 else 0) + (if bit (hd payload) 5 then 8 else 0)
              \<longrightarrow> ex = [])))
    \<and> (process_data_decode msg_obj payload = Inr (Some (config, data))
        \<and> extra_loop
             ((ConstBitStream payload)
                \<lparr>bitpos := 96 + (if bit (hd payload) 7 then 16 else 0)
                   + (if bit (hd payload) 6 then 32 else 0)
                   + (if bit (hd payload) 5 then 8 else 0)\<rparr>) [] = Inr ([], s')
        \<longrightarrow> last config = VDict extra_config \<and> last data = reading 8 (VList []))"
proof -
  define start where "start = (ConstBitStream payload)
                \<lparr>bitpos := 96 + (if bit (hd payload) 7 then 16 else 0)
                   + (if bit (hd payload) 6 then 32 else 0)
                   + (if bit (hd payload) 5 then 8 else 0)\<rparr>"
  have tot: "\<exists>config data. process_data_decode msg_obj payload = Inr (Some (config, data))"
    if "96 + (if bit (hd payload) 7 then 16 else 0) + (if bit (hd payload) 6 then 32 else 0)
          + (if bit (hd payload) 5 then 8 else 0) \<le> 8 * length payload"
    using assms(1) that by (rule port13_decodes)
  have main: "\<exists>ex s9. extra_loop start [] = Inr (ex, s9)
           \<and> last config = VDict extra_config
           \<and> last data = reading 8 (VList (map VInt ex))
           \<and> (8 * length payload <
                101 + (if bit (hd payload) 7 then 16 else 0)
                + (if bit (hd payload) 6 then 32 else 0) + (if bit (hd payload) 5 then 8 else 0)
              \<longrightarrow> ex = [])"
    if decoded: "process_data_decode msg_obj payload = Inr (Some (config, data))"
  proof -
    from process_data_decode_InrD [OF assms(1) decoded] obtain h lc s where
      sel: "select_layout (JInt 13) (length payload) (ConstBitStream payload) = Inr (Some (h, lc, s))"
      and rf: "read_fields h lc s = Inr (config, data)"
      by blast
    from select_layout_13 [OF sel] have
      h: "h = \<lparr>have_supply = True, have_battery = bit (hd payload) 5, have_firmware = True,
             have_lux = bit (hd payload) 7, have_pm = bit (hd payload) 6,
             have_extra = bit (hd payload) 0\<rparr>"
      and s: "bits s = bits (ConstBitStream payload)" "bitpos s = 8"
      by simp_all
    have he: "have_extra h"
      using h assms(2) by simp
    from read_fields_InrD [OF rf] obtain fw lat lon t hu v3 v5 v25 v10 v4 ex s8 s9 where
      config: "config =
        [VDict (if have_firmware h then dict_set node_config (KStr ''firmware_version'') (VInt fw)
                else node_config),
         VDict position_config, VDict temperature_config, VDict humidity_config]
        @ (if have_supply h then [VDict vcc_config] else [])
        @ (if have_lux h then [VDict lc] else [])
        @ (if have_pm h then [VDict pm25_config, VDict pm10_config] else [])
        @ (if have_battery h then [VDict battery_config] else [])
        @ (if have_extra h then [VDict extra_config] else [])"
      and data: "data =
        [reading 0 (VList [VInt lat, VInt lon]), reading 1 (VInt t), reading 2 (VInt hu)]
        @ (if have_supply h then [reading 3 (VInt v3)] else [])
        @ (if have_lux h then [reading 5 (VInt v5)] else [])
        @ (if have_pm h then [reading 6 (VInt v25), reading 7 (VInt v10)] else [])
        @ (if have_battery h then [reading 4 (VInt v4)] else [])
        @ (if have_extra h then [reading 8 (VList (map VInt ex))] else [])"
      and s8: "bits s8 = bits s" "bitpos s8 = bitpos s + fields_bits h"
      and loop: "have_extra h \<longrightarrow> extra_loop s8 [] = Inr (ex, s9)"
      by blast
    have "s8 = start"
      using s8 s by (intro bitstream.equality) (simp_all add: start_def h fields_bits_def)
    with loop he have l: "extra_loop start [] = Inr (ex, s9)"
      by simp
    have c: "last config = VDict extra_config"
      unfolding config using he by simp
    have d: "last data = reading 8 (VList (map VInt ex))"
      unfolding data using he by simp
    have e: "ex = []"
      if "8 * length payload <
            101 + (if bit (hd payload) 7 then 16 else 0) + (if bit (hd payload) 6 then 32 else 0)
            + (if bit (hd payload) 5 then 8 else 0)"
    proof -
      have "length (bits start) < bitpos start + 5"
        using that by (simp add: start_def length_ConstBitStream)
      then have "extra_loop start [] = Inr ([], start)"
        by (rule extra_loop_stop)
      with l show ?thesis by simp
    qed
    from l c d e show ?thesis by blast
  qed
  have empty: "last config = VDict extra_config \<and> last data = reading 8 (VList [])"
    if "process_data_decode msg_obj payload = Inr (Some (config, data))
        \<and> extra_loop start [] = Inr ([], s')"
    using main that by auto
  from tot main empty show ?thesis
    unfolding start_def by blast
qed

theorem port13_extra_appended_witness:
  "dict_get (example_msg 13) ''port'' = Inr (JInt 13)
   \<and> bit (hd (no_extras_payload @ [0xFF])) 0
   \<and> process_data_decode (example_msg 13) (no_extras_payload @ [0xFF]) =
     Inr (Some ([VDict (dict_set node_config (KStr ''firmware_version'') (VInt 7)),
                 VDict position_config, VDict temperature_config, VDict humidity_config,
                 VDict vcc_config, VDict extra_config],
                [reading 0 (VList [VInt 1, VInt (- 1)]), reading 1 (VInt 100),
                 reading 2 (VInt 400), reading 3 (VInt 33), reading 8 (VList [])]))
   \<and> (\<exists>s9. extra_loop ((ConstBitStream (no_extras_payload @ [0xFF]))\<lparr>bitpos := 96\<rparr>) [] =
         Inr ([], s9))
   \<and> process_data_decode (example_msg 13) no_extras_payload =
     Inr (Some ([VDict (dict_set node_config (KStr ''firmware_version'') (VInt 7)),
                 VDict position_config, VDict temperature_config, VDict humidity_config,
                 VDict vcc_config, VDict extra_config],
                [reading 0 (VList [VInt 1, VInt (- 1)]), reading 1 (VInt 100),
                 reading 2 (VInt 400), reading 3 (VInt 33), reading 8 (VList [])]))
   \<and> (\<exists>s9. extra_loop ((ConstBitStream no_extras_payload)\<lparr>bitpos := 96\<rparr>) [] = Inr ([], s9))"
proof -
  have b: "bit (hd (no_extras_payload @ [0xFF])) 0" "bit (hd no_extras_payload) 0"
    by (simp_all add: no_extras_payload_def)
  have o: "96 + (if bit (hd (no_extras_payload @ [0xFF])) 7 then 16 else 0)
      + (if bit (hd (no_extras_payload @ [0xFF])) 6 then 32 else 0)
      + (if bit (hd (no_extras_payload @ [0xFF])) 5 then 8 else 0) = (96 :: nat)"
    "96 + (if bit (hd no_extras_payload) 7 then 16 else 0)
      + (if bit (hd no_extras_payload) 6 then 32 else 0)
      + (if bit (hd no_extras_payload) 5 then 8 else 0) = (96 :: nat)"
    by (simp_all add: no_extras_payload_def)
  let ?C = "[VDict (dict_set node_config (KStr ''firmware_version'') (VInt 7)),
                 VDict position_config, VDict temperature_config, VDict humidity_config,
                 VDict vcc_config, VDict extra_config]"
  let ?D = "[reading 0 (VList [VInt 1, VInt (- 1)]), reading 1 (VInt 100),
                 reading 2 (VInt 400), reading 3 (VInt 33), reading 8 (VList [])]"
  from port13_extra_appended [OF example_msg_fields(1) b(1), of ?C ?D,
      THEN conjunct2, THEN conjunct1, THEN mp, OF padded_no_extras_payload_decode]
  obtain ex s9 where
    "extra_loop ((ConstBitStream (no_extras_payload @ [0xFF]))\<lparr>bitpos := 96\<rparr>) [] = Inr (ex, s9)"
    and "last ?D = reading 8 (VList (map VInt ex))"
    unfolding o by blast
  then have p: "\<exists>s9. extra_loop ((ConstBitStream (no_extras_payload @ [0xFF]))\<lparr>bitpos := 96\<rparr>) [] =
         Inr ([], s9)"
    by (auto simp: reading_def)
  from port13_extra_appended [OF example_msg_fields(1) b(2), of ?C ?D,
      THEN conjunct2, THEN conjunct1, THEN mp, OF no_extras_payload_decode]
  obtain ex' s9' where
    "extra_loop ((ConstBitStream no_extras_payload)\<lparr>bitpos := 96\<rparr>) [] = Inr (ex', s9')"
    and "last ?D = reading 8 (VList (map VInt ex'))"
    unfolding o by blast
  then have q: "\<exists>s9. extra_loop ((ConstBitStream no_extras_payload)\<lparr>bitpos := 96\<rparr>) [] = Inr ([], s9)"
    by (auto simp: reading_def)
  from p q b padded_no_extras_payload_decode no_extras_payload_decode
    example_msg_fields(1) [of 13]
  show ?thesis
    by (intro conjI)
qed

end
